theory Spec2Isabelle
  imports Main "HOL-Library.Word" "HOL-Library.Sublist" "HOL-Library.AList"
begin

section \<open>Wire codec: variable-length integers\<close>

text \<open>
  The scanner's \<^verbatim>\<open>protocol/varint.js\<close> is not among the sources; only its tests
  (\<^verbatim>\<open>scanner.test.ts\<close>, lines 9-31) are. The three functions below are therefore
  modelled from the specification, sections 3 and 4.1.
\<close>

type_synonym byte = "8 word"

datatype codec_error = RangeError | MalformedVarInt

text \<open>
  Modelled from the spec: \<^verbatim>\<open>protocol/varint.js\<close> is missing. "A non-negative integer
  encoded 7 bits per byte, little-endian group order, continuation bit set on all but
  the final byte."
\<close>

function encodeGroups :: "nat \<Rightarrow> byte list" where
  "encodeGroups n =
     (if n < 128 then [of_nat n]
      else of_nat (n mod 128 + 128) # encodeGroups (n div 128))"
  by pat_completeness auto
termination
  by (relation "measure (\<lambda>n. n)") auto

declare encodeGroups.simps [simp del]

text \<open>
  Modelled from the spec: \<^verbatim>\<open>encode\<close> of the missing \<^verbatim>\<open>protocol/varint.js\<close>.
  "Fails with RangeError if n is negative or exceeds the representable magnitude";
  the supported range is 0 to 2^31-1.
\<close>

definition encode :: "int \<Rightarrow> codec_error + byte list" where
  "encode n =
     (if n < 0 \<or> 2 ^ 31 - 1 < n then Inl RangeError
      else Inr (encodeGroups (nat n)))"

text \<open>
  Modelled from the spec: \<^verbatim>\<open>decode\<close> of the missing \<^verbatim>\<open>protocol/varint.js\<close>.
  "Inverse; fails on malformed continuation sequences (no terminating byte)."
  Reading stops at the first byte whose continuation bit is clear.
\<close>

fun decodeGroups :: "byte list \<Rightarrow> nat option" where
  "decodeGroups [] = None"
| "decodeGroups (b # bs) =
     (if unat b < 128 then Some (unat b)
      else (case decodeGroups bs of
              None \<Rightarrow> None
            | Some m \<Rightarrow> Some (unat b - 128 + 128 * m)))"

definition decode :: "byte list \<Rightarrow> codec_error + int" where
  "decode bs =
     (case decodeGroups bs of
        None \<Rightarrow> Inl MalformedVarInt
      | Some m \<Rightarrow> Inr (int m))"

text \<open>
  Modelled from the spec: \<^verbatim>\<open>encodingLength\<close> of the missing \<^verbatim>\<open>protocol/varint.js\<close>.
  "Pure function of magnitude", with the boundary values 0 to 1, 127 to 1, 128 to 2,
  16383 to 2, 16384 to 3: the length is read off the magnitude by thresholds, without
  producing the bytes.
\<close>

definition encodingLength :: "int \<Rightarrow> nat" where
  "encodingLength n =
     (if n < 2 ^ 7 then 1
      else if n < 2 ^ 14 then 2
      else if n < 2 ^ 21 then 3
      else if n < 2 ^ 28 then 4
      else 5)"

section \<open>Retry executor\<close>

text \<open>A JavaScript \<^verbatim>\<open>Error\<close> value, identified by its message.\<close>

datatype js_error = Error string

text \<open>
  Modelled from the spec: \<^verbatim>\<open>calculateRetryDelay\<close> of the missing \<^verbatim>\<open>retry.js\<close>
  (only \<^verbatim>\<open>scanner.test.ts\<close>, lines 76-87, is present). Exponential mode is
  "min(baseDelay * 2^attemptIndex, 30000 ms)", flat mode is "always baseDelay".
\<close>

definition MAX_RETRY_DELAY :: int where
  "MAX_RETRY_DELAY = 30000"

definition calculateRetryDelay :: "nat \<Rightarrow> int \<Rightarrow> bool \<Rightarrow> int" where
  "calculateRetryDelay attemptIndex baseDelay exponential =
     (if exponential then min (baseDelay * 2 ^ attemptIndex) MAX_RETRY_DELAY
      else baseDelay)"

text \<open>
  Modelled from the spec: \<^verbatim>\<open>withRetry\<close> of the missing \<^verbatim>\<open>retry.js\<close> (only
  \<^verbatim>\<open>scanner.test.ts\<close>, lines 89-105, is present). "Invokes operation up to
  retries + 1 times. Between attempts, waits calculateRetryDelay(attemptIndex, baseDelay,
  exponential). On success, returns the value and the 1-based count of attempts taken. On
  exhaustion, propagates the last failure's error unchanged."

  The asynchronous operation is a function on an explicit state \<open>'s\<close> that returns
  either the error it throws or its value. The loop carries the 0-based index of the
  current attempt, the number of retries still allowed, and the delays waited so far.
\<close>

fun retryLoop ::
  "('s \<Rightarrow> (js_error + 'a) \<times> 's) \<Rightarrow> int \<Rightarrow> bool \<Rightarrow> nat \<Rightarrow> nat \<Rightarrow> 's \<Rightarrow> int list
     \<Rightarrow> (js_error + 'a \<times> nat) \<times> 's \<times> int list" where
  "retryLoop operation retryDelay exponential attempt 0 s waits =
     (case operation s of
        (Inr v, s') \<Rightarrow> (Inr (v, attempt + 1), s', waits)
      | (Inl lastError, s') \<Rightarrow> (Inl lastError, s', waits))"
| "retryLoop operation retryDelay exponential attempt (Suc left) s waits =
     (case operation s of
        (Inr v, s') \<Rightarrow> (Inr (v, attempt + 1), s', waits)
      | (Inl lastError, s') \<Rightarrow>
          retryLoop operation retryDelay exponential (attempt + 1) left s'
            (waits @ [calculateRetryDelay attempt retryDelay exponential]))"

definition withRetry ::
  "('s \<Rightarrow> (js_error + 'a) \<times> 's) \<Rightarrow> nat \<Rightarrow> int \<Rightarrow> bool \<Rightarrow> 's
     \<Rightarrow> (js_error + 'a \<times> nat) \<times> 's \<times> int list" where
  "withRetry operation retries retryDelay exponential s =
     retryLoop operation retryDelay exponential 0 retries s []"

text \<open>
  Instrumentation for counting invocations: the operation run on a state paired with a
  call counter, as the \<^verbatim>\<open>calls++\<close> of the test does.
\<close>

definition counting ::
  "('s \<Rightarrow> (js_error + 'a) \<times> 's) \<Rightarrow> 's \<times> nat \<Rightarrow> (js_error + 'a) \<times> 's \<times> nat" where
  "counting operation = (\<lambda>(s, calls). case operation s of (r, s') \<Rightarrow> (r, s', Suc calls))"

text \<open>The state in which the \<open>k\<close>-th invocation (counting from 0) starts.\<close>

fun stateBefore :: "('s \<Rightarrow> (js_error + 'a) \<times> 's) \<Rightarrow> nat \<Rightarrow> 's \<Rightarrow> 's" where
  "stateBefore operation 0 s = s"
| "stateBefore operation (Suc k) s = stateBefore operation k (snd (operation s))"

text \<open>
  The two operations of the tests: one that fails on its first two calls and then
  succeeds, and one that always fails. The state is the \<^verbatim>\<open>calls\<close> counter.
\<close>

definition failsTwice :: "nat \<Rightarrow> (js_error + string) \<times> nat" where
  "failsTwice calls =
     (if Suc calls < 3 then (Inl (Error ''fail''), Suc calls) else (Inr ''ok'', Suc calls))"

definition alwaysFails :: "nat \<Rightarrow> (js_error + string) \<times> nat" where
  "alwaysFails calls = (Inl (Error ''always fails''), Suc calls)"

section \<open>Mode classifier\<close>

datatype server_mode = Online | Offline | Unknown

record player =
  player_id :: string
  player_name :: string

definition isHexDigit :: "char \<Rightarrow> bool" where
  "isHexDigit c = (c \<in> set ''0123456789abcdefABCDEF'')"

text \<open>
  Modelled from the spec: \<^verbatim>\<open>isValidUUIDFormatSync\<close> of the missing \<^verbatim>\<open>uuid.js\<close>.
  "True only for the canonical dashed hexadecimal identifier form (8-4-4-4-12 hex
  digits); case-insensitive; empty or malformed strings are false, never raise."
\<close>

fun hexGroups :: "nat list \<Rightarrow> string \<Rightarrow> bool" where
  "hexGroups [] s = (s = [])"
| "hexGroups [n] s = (length s = n \<and> list_all isHexDigit s)"
| "hexGroups (n # ns) s =
     (length (take n s) = n \<and> list_all isHexDigit (take n s) \<and>
      (case drop n s of
         [] \<Rightarrow> False
       | c # rest \<Rightarrow> c = CHR ''-'' \<and> hexGroups ns rest))"

definition isValidUUIDFormatSync :: "string \<Rightarrow> bool" where
  "isValidUUIDFormatSync s = hexGroups [8, 4, 4, 4, 12] s"

text \<open>
  Modelled from the spec: \<^verbatim>\<open>detectServerModeSync\<close> of the missing \<^verbatim>\<open>uuid.js\<close>
  (only \<^verbatim>\<open>scanner.test.ts\<close>, lines 130-146, is present). "If the list is empty,
  return unknown. If every entry's id is a validly-formatted identifier, return online.
  If any single entry fails the format check, return unknown."
\<close>

definition detectServerModeSync :: "player list \<Rightarrow> server_mode" where
  "detectServerModeSync players =
     (if players = [] then Unknown
      else if list_all (\<lambda>p. isValidUUIDFormatSync (player_id p)) players then Online
      else Unknown)"

section \<open>JSON depth guard\<close>

datatype json =
    JNull
  | JUndefined
  | JBool bool
  | JNumber int
  | JString string
  | JArray "json list"
  | JObject "(string \<times> json) list"

definition MAX_JSON_DEPTH :: nat where
  "MAX_JSON_DEPTH = 32"

definition maxDepth :: "nat list \<Rightarrow> nat" where
  "maxDepth ds = foldr max ds 0"

text \<open>
  Modelled from the spec: \<^verbatim>\<open>getJsonDepth\<close> of the missing \<^verbatim>\<open>scanner.js\<close> (only
  \<^verbatim>\<open>scanner.test.ts\<close>, lines 108-127, is present). "0 for scalars/null/undefined;
  for a container, 1 + max(measureDepth(child) for each child), or 1 if the container is
  empty. Must short-circuit once a configured maximum depth is reached (do not recurse
  past it)." The first argument is the number of levels that may still be entered; a
  container met when none is left counts as one level and its children are not visited.
\<close>

fun depthWithin :: "nat \<Rightarrow> json \<Rightarrow> nat" where
  "depthWithin 0 (JArray vs) = 1"
| "depthWithin 0 (JObject kvs) = 1"
| "depthWithin (Suc left) (JArray vs) = 1 + maxDepth (map (depthWithin left) vs)"
| "depthWithin (Suc left) (JObject kvs) = 1 + maxDepth (map (\<lambda>kv. depthWithin left (snd kv)) kvs)"
| "depthWithin left v = 0"

definition getJsonDepth :: "json \<Rightarrow> nat" where
  "getJsonDepth v = depthWithin MAX_JSON_DEPTH v"

text \<open>The nesting depth of a value, measured without any bound.\<close>

fun nestingDepth :: "json \<Rightarrow> nat" where
  "nestingDepth (JArray vs) = 1 + maxDepth (map nestingDepth vs)"
| "nestingDepth (JObject kvs) = 1 + maxDepth (map (\<lambda>kv. nestingDepth (snd kv)) kvs)"
| "nestingDepth v = 0"

text \<open>The value of the test: a leaf wrapped in \<open>n\<close> single-member objects.\<close>

fun nested :: "nat \<Rightarrow> json" where
  "nested 0 = JString ''leaf''"
| "nested (Suc n) = JObject [(''n'', nested n)]"

section \<open>Coordinator: rendering numbers and dates as strings\<close>

text \<open>
  The agent service writes numbers and dates into strings through JavaScript built-ins:
  template literals, \<^verbatim>\<open>Date.now().toString()\<close> and \<^verbatim>\<open>toISOString()\<close>.
\<close>

definition digitChar :: "nat \<Rightarrow> char" where
  "digitChar d = char_of (48 + d)"

function showNat :: "nat \<Rightarrow> string" where
  "showNat n = (if n < 10 then [digitChar n] else showNat (n div 10) @ [digitChar (n mod 10)])"
  by pat_completeness auto
termination
  by (relation "measure (\<lambda>n. n)") auto

declare showNat.simps [simp del]

definition showInt :: "int \<Rightarrow> string" where
  "showInt i = (if i < 0 then CHR ''-'' # showNat (nat (- i)) else showNat (nat i))"

definition padLeft :: "nat \<Rightarrow> string \<Rightarrow> string" where
  "padLeft w t = replicate (w - length t) CHR ''0'' @ t"

text \<open>
  \<^verbatim>\<open>new Date(ms).toISOString()\<close>: the proleptic Gregorian date of a count of
  milliseconds since the epoch, as \<^verbatim>\<open>YYYY-MM-DDTHH:mm:ss.sssZ\<close> (years outside
  0..9999 take a sign and six digits). JavaScript raises a RangeError beyond
  8.64e15 ms on either side of the epoch, which a reading of the clock never is.
\<close>

definition toISOString :: "int \<Rightarrow> string" where
  "toISOString ms =
     (let days = ms div 86400000;
          rest = ms mod 86400000;
          z = days + 719468;
          era = z div 146097;
          doe = z mod 146097;
          yoe = (doe - doe div 1460 + doe div 36524 - doe div 146096) div 365;
          doy = doe - (365 * yoe + yoe div 4 - yoe div 100);
          mp = (5 * doy + 2) div 153;
          d = doy - (153 * mp + 2) div 5 + 1;
          m = (if mp < 10 then mp + 3 else mp - 9);
          y = yoe + era * 400 + (if m \<le> 2 then 1 else 0);
          year = (if 0 \<le> y \<and> y \<le> 9999 then padLeft 4 (showNat (nat y))
                  else (if y < 0 then CHR ''-'' else CHR ''+'') # padLeft 6 (showNat (nat \<bar>y\<bar>)))
      in year @ ''-'' @ padLeft 2 (showNat (nat m)) @ ''-'' @ padLeft 2 (showNat (nat d))
         @ ''T'' @ padLeft 2 (showNat (nat (rest div 3600000)))
         @ '':'' @ padLeft 2 (showNat (nat (rest div 60000 mod 60)))
         @ '':'' @ padLeft 2 (showNat (nat (rest div 1000 mod 60)))
         @ ''.'' @ padLeft 3 (showNat (nat (rest mod 1000))) @ ''Z'')"

section \<open>Coordinator: the cache connection (db/redis.ts)\<close>

text \<open>The \<^verbatim>\<open>status\<close> of an ioredis client.\<close>

datatype client_status = Wait | Reconnecting | Connecting | Connect | Ready | Close | End

text \<open>
  The keys of \<^verbatim>\<open>REDIS_KEYS\<close> that the agent service uses. The key strings are
  \<^verbatim>\<open>reconmc:agents:online\<close>, \<^verbatim>\<open>reconmc:agent:${id}:heartbeat\<close> and
  \<^verbatim>\<open>reconmc:agent:${id}:data\<close>; no two of them coincide, whatever the ids are,
  so a key is represented by its kind and id.
\<close>

datatype redis_key = AGENTS_ONLINE | AGENT_HEARTBEAT string | AGENT_DATA string

text \<open>
  The module state of \<^verbatim>\<open>redis.ts\<close> (\<open>redisDisabled\<close>, \<open>redisClient\<close>, \<open>redisUrl\<close>)
  together with what the server holds under the keys above and with the environment:
  \<^item> \<open>constructorThrows\<close>: whether \<^verbatim>\<open>new Redis(...)\<close> throws;
  \<^item> \<open>rejections\<close>: for the commands sent from now on, in order, the error with which
    the call rejects, or \<open>None\<close> when the server answers (an empty list: all answered);
  \<^item> \<open>agentsOnline\<close>: the members of the set at \<open>AGENTS_ONLINE\<close>, which has no expiry;
  \<^item> \<open>agentHeartbeat\<close>: per agent id, the expiry time (ms) and value of the string at
    \<open>AGENT_HEARTBEAT id\<close>;
  \<^item> \<open>agentData\<close>: per agent id, the expiry time (if any) and the fields of the hash at
    \<open>AGENT_DATA id\<close>.
  Each key holds the kind of value the service writes to it. An entry whose expiry time
  has passed is absent for every command, as in Redis.
\<close>

record redis =
  redisDisabled :: bool
  redisClient :: "client_status option"
  redisUrl :: string
  constructorThrows :: bool
  rejections :: "js_error option list"
  agentsOnline :: "string list"
  agentHeartbeat :: "(string \<times> int \<times> string) list"
  agentData :: "(string \<times> int option \<times> (string \<times> string) list) list"

text \<open>
  \<^verbatim>\<open>String.prototype.trim\<close> removes white space and line terminators from both
  ends; these are the ones among the 256 characters of \<open>char\<close>.
\<close>

definition isWhiteSpace :: "char \<Rightarrow> bool" where
  "isWhiteSpace c = (of_char c \<in> {9, 10, 11, 12, 13, 32, 160 :: nat})"

definition trim :: "string \<Rightarrow> string" where
  "trim t = rev (dropWhile isWhiteSpace (rev (dropWhile isWhiteSpace t)))"

text \<open>
  \<^verbatim>\<open>getRedisClient\<close>: the client, given by its status, or \<open>None\<close> for null. A newly
  constructed client is connecting, not yet ready.
\<close>

definition getRedisClient :: "redis \<Rightarrow> client_status option \<times> redis" where
  "getRedisClient r =
     (if redisDisabled r then (None, r)
      else if redisClient r = Some Ready then (Some Ready, r)
      else if redisUrl r = [] \<or> trim (redisUrl r) = [] then (None, r\<lparr>redisDisabled := True\<rparr>)
      else if constructorThrows r then (None, r\<lparr>redisDisabled := True\<rparr>)
      else (Some Connecting, r\<lparr>redisClient := Some Connecting\<rparr>))"

definition isRedisAvailable :: "redis \<Rightarrow> bool \<times> redis" where
  "isRedisAvailable r =
     (case getRedisClient r of (client, r') \<Rightarrow> (client \<noteq> None \<and> client = Some Ready, r'))"

text \<open>
  \<^verbatim>\<open>safeRedisCommand\<close>: the command is a function on the cache that returns the error
  it throws or its value; \<open>fallbackValue\<close> is \<open>None\<close> when the argument is left out, and
  the result \<open>None\<close> is null.
\<close>

definition safeRedisCommand ::
  "(redis \<Rightarrow> (js_error + 'a) \<times> redis) \<Rightarrow> 'a option \<Rightarrow> redis \<Rightarrow> 'a option \<times> redis" where
  "safeRedisCommand command fallbackValue r =
     (case getRedisClient r of
        (client, r') \<Rightarrow>
          if client = None \<or> client \<noteq> Some Ready then (fallbackValue, r')
          else (case command r' of
                  (Inr v, r'') \<Rightarrow> (Some v, r'')
                | (Inl err, r'') \<Rightarrow> (fallbackValue, r'')))"

subsection \<open>The commands the service sends\<close>

text \<open>An entry that has not expired at time \<open>now\<close>.\<close>

definition liveHeartbeat :: "int \<Rightarrow> string \<Rightarrow> redis \<Rightarrow> (int \<times> string) option" where
  "liveHeartbeat now agentId r =
     (case map_of (agentHeartbeat r) agentId of
        None \<Rightarrow> None
      | Some (expiry, v) \<Rightarrow> if expiry \<le> now then None else Some (expiry, v))"

definition liveData ::
  "int \<Rightarrow> string \<Rightarrow> redis \<Rightarrow> (int option \<times> (string \<times> string) list) option" where
  "liveData now agentId r =
     (case map_of (agentData r) agentId of
        None \<Rightarrow> None
      | Some (None, hash) \<Rightarrow> Some (None, hash)
      | Some (Some expiry, hash) \<Rightarrow> if expiry \<le> now then None else Some (Some expiry, hash))"

text \<open>The fields that \<^verbatim>\<open>hgetall\<close> finds under \<open>AGENT_DATA agentId\<close>: none when the key is absent.\<close>

definition hgetall :: "int \<Rightarrow> string \<Rightarrow> redis \<Rightarrow> (string \<times> string) list" where
  "hgetall now agentId r =
     (case liveData now agentId r of
        None \<Rightarrow> []
      | Some (expiry, hash) \<Rightarrow> hash)"

datatype pipeline_command =
    Sadd redis_key string
  | Srem redis_key string
  | Setex redis_key nat string
  | Hset redis_key "(string \<times> string) list"
  | Expire redis_key nat
  | Del redis_key
  | Hgetall redis_key

datatype redis_reply = IntegerReply nat | StatusOK | HashReply "(string \<times> string) list" | WrongType

text \<open>
  One command executed by the server at time \<open>now\<close>. The equations cover the
  pairs of command and key that the service sends; any other pair is answered with an
  error and changes nothing. \<open>Sadd\<close> puts a new member last, so that \<open>agentsOnline\<close>
  is also the order in which \<^verbatim>\<open>smembers\<close> lists the members.
\<close>

fun runCommand :: "int \<Rightarrow> pipeline_command \<Rightarrow> redis \<Rightarrow> redis_reply \<times> redis" where
  "runCommand now (Sadd AGENTS_ONLINE member) r =
     (if member \<in> set (agentsOnline r) then (IntegerReply 0, r)
      else (IntegerReply 1, r\<lparr>agentsOnline := agentsOnline r @ [member]\<rparr>))"
| "runCommand now (Srem AGENTS_ONLINE member) r =
     (if member \<in> set (agentsOnline r)
      then (IntegerReply 1, r\<lparr>agentsOnline := removeAll member (agentsOnline r)\<rparr>)
      else (IntegerReply 0, r))"
| "runCommand now (Setex (AGENT_HEARTBEAT agentId) seconds v) r =
     (StatusOK,
      r\<lparr>agentHeartbeat := AList.update agentId (now + 1000 * int seconds, v) (agentHeartbeat r)\<rparr>)"
| "runCommand now (Hset (AGENT_DATA agentId) hash) r =
     (case liveData now agentId r of
        None \<Rightarrow>
          (IntegerReply (length (remdups (map fst hash))),
           r\<lparr>agentData := AList.update agentId
                 (None, fold (\<lambda>(f, v). AList.update f v) hash []) (agentData r)\<rparr>)
      | Some (expiry, old) \<Rightarrow>
          (IntegerReply (length (filter (\<lambda>f. f \<notin> set (map fst old)) (remdups (map fst hash)))),
           r\<lparr>agentData := AList.update agentId
                 (expiry, fold (\<lambda>(f, v). AList.update f v) hash old) (agentData r)\<rparr>))"
| "runCommand now (Expire (AGENT_DATA agentId) seconds) r =
     (case liveData now agentId r of
        None \<Rightarrow> (IntegerReply 0, r)
      | Some (expiry, hash) \<Rightarrow>
          (IntegerReply 1,
           r\<lparr>agentData := AList.update agentId
                 (Some (now + 1000 * int seconds), hash) (agentData r)\<rparr>))"
| "runCommand now (Del (AGENT_HEARTBEAT agentId)) r =
     (IntegerReply (if liveHeartbeat now agentId r = None then 0 else 1),
      r\<lparr>agentHeartbeat := AList.delete agentId (agentHeartbeat r)\<rparr>)"
| "runCommand now (Del (AGENT_DATA agentId)) r =
     (IntegerReply (if liveData now agentId r = None then 0 else 1),
      r\<lparr>agentData := AList.delete agentId (agentData r)\<rparr>)"
| "runCommand now (Hgetall (AGENT_DATA agentId)) r = (HashReply (hgetall now agentId r), r)"
| "runCommand now command r = (WrongType, r)"

fun runCommands :: "int \<Rightarrow> pipeline_command list \<Rightarrow> redis \<Rightarrow> redis_reply list \<times> redis" where
  "runCommands now [] r = ([], r)"
| "runCommands now (command # commands) r =
     (case runCommand now command r of
        (reply, r') \<Rightarrow>
          (case runCommands now commands r' of (replies, r'') \<Rightarrow> (reply # replies, r'')))"

text \<open>
  A call to the server: it rejects with the next error of \<open>rejections\<close>, or it is
  answered. A rejected call leaves the contents as they were.
\<close>

definition send :: "(redis \<Rightarrow> 'a \<times> redis) \<Rightarrow> redis \<Rightarrow> (js_error + 'a) \<times> redis" where
  "send call r =
     (case rejections r of
        [] \<Rightarrow> (case call r of (v, r') \<Rightarrow> (Inr v, r'))
      | Some err # rest \<Rightarrow> (Inl err, r\<lparr>rejections := rest\<rparr>)
      | None # rest \<Rightarrow> (case call (r\<lparr>rejections := rest\<rparr>) of (v, r') \<Rightarrow> (Inr v, r')))"

text \<open>\<^verbatim>\<open>pipeline.exec()\<close>: all commands of the pipeline in one call.\<close>

definition exec :: "int \<Rightarrow> pipeline_command list \<Rightarrow> redis \<Rightarrow> (js_error + redis_reply list) \<times> redis" where
  "exec now pipeline = send (runCommands now pipeline)"

definition smembers :: "redis_key \<Rightarrow> redis \<Rightarrow> (js_error + string list) \<times> redis" where
  "smembers key = send (\<lambda>r. (case key of AGENTS_ONLINE \<Rightarrow> agentsOnline r | _ \<Rightarrow> [], r))"

definition scard :: "redis_key \<Rightarrow> redis \<Rightarrow> (js_error + nat) \<times> redis" where
  "scard key = send (\<lambda>r. (case key of AGENTS_ONLINE \<Rightarrow> length (agentsOnline r) | _ \<Rightarrow> 0, r))"

section \<open>Coordinator: the durable store\<close>

text \<open>
  A row of the \<^verbatim>\<open>agents\<close> table. Times are milliseconds since the epoch. The
  table is the list of its rows; \<^verbatim>\<open>db.select().from(agents)\<close> returns them in this
  order. Strings are lists of characters; a character outside \<open>a-z\<close>, \<open>A-Z\<close>,
  \<open>0-9\<close>, \<open>_\<close> and \<open>-\<close> is rejected by the identifier check whatever it is.
  Queries against the durable store are taken to succeed: a failure there aborts the
  call with the store's own error and is not modelled.
\<close>

record agent =
  agent_id :: string
  agent_name :: string
  agent_status :: string
  agent_lastHeartbeat :: int
  agent_currentQueueId :: "string option"
  agent_registeredAt :: int
  agent_secret :: "string option"

text \<open>
  Modelled from the spec: the column defaults of the \<^verbatim>\<open>agents\<close> table, declared
  in \<^verbatim>\<open>db/schema.js\<close>, which is missing. A row inserted by registration has its
  "heartbeat set to now" and its "current assignment cleared" (section 4.5); it is
  "created on first registration", so \<open>registeredAt\<close> is the time of insertion, and it
  has no secret.
\<close>

definition insertDefaults :: "int \<Rightarrow> string \<Rightarrow> string \<Rightarrow> string \<Rightarrow> agent" where
  "insertDefaults now agentId agentName agentStatus =
     \<lparr>agent_id = agentId, agent_name = agentName, agent_status = agentStatus,
      agent_lastHeartbeat = now, agent_currentQueueId = None,
      agent_registeredAt = now, agent_secret = None\<rparr>"

text \<open>
  \<^verbatim>\<open>db.insert(agents).values(...).onConflictDoUpdate({target: agents.id, set: ...})\<close>;
  \<open>conflictSet\<close> is the \<^verbatim>\<open>set\<close> of the conflict clause applied to a row.
\<close>

definition conflictSet :: "int \<Rightarrow> string \<Rightarrow> agent \<Rightarrow> agent" where
  "conflictSet now agentName a =
     a\<lparr>agent_name := agentName, agent_status := ''idle'',
       agent_lastHeartbeat := now, agent_currentQueueId := None\<rparr>"

definition insertOnConflictDoUpdate ::
  "int \<Rightarrow> string \<Rightarrow> string \<Rightarrow> agent list \<Rightarrow> agent list" where
  "insertOnConflictDoUpdate now agentId agentName db =
     (if agentId \<in> set (map agent_id db)
      then map (\<lambda>a. if agent_id a = agentId then conflictSet now agentName a else a) db
      else db @ [insertDefaults now agentId agentName ''idle''])"

text \<open>\<^verbatim>\<open>db.select().from(agents).where(eq(agents.id, agentId)).limit(1)\<close>\<close>

definition selectById :: "string \<Rightarrow> agent list \<Rightarrow> agent option" where
  "selectById agentId db = find (\<lambda>a. agent_id a = agentId) db"

text \<open>
  \<^verbatim>\<open>db.update(agents).set({lastHeartbeat, ...status, ...currentQueueId}).where(eq(agents.id, agentId))\<close>;
  \<open>heartbeatSet\<close> is the \<^verbatim>\<open>set\<close> applied to a row: the status is set when the
  option is a non-empty string, the assignment when the option is given.
\<close>

definition heartbeatSet :: "int \<Rightarrow> string option \<Rightarrow> string option \<Rightarrow> agent \<Rightarrow> agent" where
  "heartbeatSet now status currentQueueId a =
     a\<lparr>agent_lastHeartbeat := now,
       agent_status :=
         (case status of
            None \<Rightarrow> agent_status a
          | Some st \<Rightarrow> if st = [] then agent_status a else st),
       agent_currentQueueId :=
         (case currentQueueId of
            None \<Rightarrow> agent_currentQueueId a
          | Some q \<Rightarrow> Some q)\<rparr>"

definition updateById ::
  "int \<Rightarrow> string option \<Rightarrow> string option \<Rightarrow> string \<Rightarrow> agent list \<Rightarrow> agent list" where
  "updateById now status currentQueueId agentId db =
     map (\<lambda>a. if agent_id a = agentId then heartbeatSet now status currentQueueId a else a) db"

text \<open>\<^verbatim>\<open>db.delete(agents).where(sql`${agents.lastHeartbeat} < ${threshold}`)\<close>\<close>

definition deleteOlderThan :: "int \<Rightarrow> agent list \<Rightarrow> agent list" where
  "deleteOlderThan threshold db = filter (\<lambda>a. \<not> agent_lastHeartbeat a < threshold) db"

section \<open>Coordinator: the agent service (services/agentService.ts)\<close>

definition HEARTBEAT_TIMEOUT_MS :: int where
  "HEARTBEAT_TIMEOUT_MS = 60000"

definition AGENT_TTL_SECONDS :: nat where
  "AGENT_TTL_SECONDS = 70"

text \<open>The character class \<^verbatim>\<open>[a-zA-Z0-9_-]\<close>, by character code.\<close>

definition isAgentIdChar :: "char \<Rightarrow> bool" where
  "isAgentIdChar c =
     (let n = (of_char c :: nat)
      in (97 \<le> n \<and> n \<le> 122) \<or> (65 \<le> n \<and> n \<le> 90) \<or> (48 \<le> n \<and> n \<le> 57)
         \<or> c = CHR ''_'' \<or> c = CHR ''-'')"

text \<open>\<^verbatim>\<open>/^[a-zA-Z0-9_-]+$/.test(agentId) && agentId.length >= 1 && agentId.length <= 100\<close>\<close>

definition isValidAgentId :: "string \<Rightarrow> bool" where
  "isValidAgentId agentId =
     ((agentId \<noteq> [] \<and> list_all isAgentIdChar agentId)
      \<and> 1 \<le> length agentId \<and> length agentId \<le> 100)"

definition isDigit :: "char \<Rightarrow> bool" where
  "isDigit c = (let n = (of_char c :: nat) in 48 \<le> n \<and> n \<le> 57)"

text \<open>\<^verbatim>\<open>parseInt(digits, 10)\<close> on a non-empty string of decimal digits.\<close>

definition parseInt :: "string \<Rightarrow> nat" where
  "parseInt digits = fold (\<lambda>c n. 10 * n + (of_char c - 48)) digits 0"

text \<open>
  \<^verbatim>\<open>getAgentNumberFromId\<close>. The hash is computed on 32-bit integers:
  \<^verbatim>\<open>hash & hash\<close> brings \<^verbatim>\<open>((hash << 5) - hash) + char\<close> back to 32 bits, so
  each step is a shift, a subtraction and an addition that wrap around. A number of
  more than 15 digits after \<^verbatim>\<open>agent-\<close> is rounded to a double by JavaScript; here it
  is kept exact.
\<close>

definition getAgentNumberFromId :: "string \<Rightarrow> nat" where
  "getAgentNumberFromId agentId =
     (if take 6 agentId = ''agent-'' \<and> drop 6 agentId \<noteq> [] \<and> list_all isDigit (drop 6 agentId)
      then parseInt (drop 6 agentId)
      else (let hash = fold (\<lambda>c h. (push_bit 5 h - h) + of_nat (of_char c)) agentId (0 :: 32 word)
            in nat \<bar>sint hash\<bar> mod 1000 + 1))"

record register_result =
  result_agentId :: string
  result_agentName :: string

text \<open>
  \<^verbatim>\<open>registerAgent\<close>. The option \<open>name\<close> is \<open>None\<close> when it is left out; \<open>now\<close>
  is the clock during the call. The result is the error thrown, or the value returned
  with the durable store and the cache as the call leaves them.
\<close>

definition registerAgent ::
  "int \<Rightarrow> agent list \<Rightarrow> string \<Rightarrow> string option \<Rightarrow> redis
     \<Rightarrow> js_error + register_result \<times> agent list \<times> redis" where
  "registerAgent now db agentId name r =
     (if \<not> isValidAgentId agentId then Inl (Error ''Invalid agentId format'')
      else
        (let agentName =
               (case name of
                  None \<Rightarrow> ''Agent '' @ showNat (getAgentNumberFromId agentId)
                | Some given \<Rightarrow>
                    if given = [] then ''Agent '' @ showNat (getAgentNumberFromId agentId)
                    else given);
             db' = insertOnConflictDoUpdate now agentId agentName db;
             (ignored, r') =
               safeRedisCommand
                 (exec now
                    [Sadd AGENTS_ONLINE agentId,
                     Setex (AGENT_HEARTBEAT agentId) AGENT_TTL_SECONDS (showInt now),
                     Hset (AGENT_DATA agentId)
                       [(''id'', agentId), (''name'', agentName), (''status'', ''idle''),
                        (''registeredAt'', toISOString now)],
                     Expire (AGENT_DATA agentId) AGENT_TTL_SECONDS])
                 None r
         in Inr (\<lparr>result_agentId = agentId, result_agentName = agentName\<rparr>, db', r')))"

text \<open>
  \<^verbatim>\<open>updateHeartbeat\<close>. The options \<open>status\<close> and \<open>currentQueueId\<close> are \<open>None\<close>
  when they are left out.
\<close>

definition updateHeartbeat ::
  "int \<Rightarrow> agent list \<Rightarrow> string \<Rightarrow> string option \<Rightarrow> string option \<Rightarrow> redis
     \<Rightarrow> js_error + agent list \<times> redis" where
  "updateHeartbeat now db agentId status currentQueueId r =
     (if \<not> isValidAgentId agentId then Inl (Error ''Invalid agentId format'')
      else
        (case selectById agentId db of
           None \<Rightarrow> Inl (Error ''Agent not registered'')
         | Some existing \<Rightarrow>
             (let db' = updateById now status currentQueueId agentId db;
                  (ignored, r') =
                    safeRedisCommand
                      (exec now
                         ([Setex (AGENT_HEARTBEAT agentId) AGENT_TTL_SECONDS (showInt now)]
                          @ (case status of
                               None \<Rightarrow> []
                             | Some st \<Rightarrow>
                                 if st = [] then []
                                 else [Hset (AGENT_DATA agentId) [(''status'', st)]])
                          @ [Expire (AGENT_DATA agentId) AGENT_TTL_SECONDS,
                             Sadd AGENTS_ONLINE agentId]))
                      None r
              in Inr (db', r'))))"

text \<open>
  \<^verbatim>\<open>removeOfflineAgents\<close>: nothing is deleted while the cache is available.
\<close>

definition removeOfflineAgents :: "int \<Rightarrow> agent list \<Rightarrow> redis \<Rightarrow> agent list \<times> redis" where
  "removeOfflineAgents now db r =
     (case isRedisAvailable r of
        (available, r') \<Rightarrow>
          if available then (db, r')
          else (deleteOlderThan (now - HEARTBEAT_TIMEOUT_MS) db, r'))"

text \<open>
  An element of the list returned by \<^verbatim>\<open>listOnlineAgents\<close>: a row with the
  \<open>offline\<close> flag. The id, name and status of an element built from a cached hash are
  the fields of that hash, which are undefined (\<open>None\<close>) when the hash lacks them.
\<close>

record listed_agent =
  listed_id :: "string option"
  listed_name :: "string option"
  listed_status :: "string option"
  listed_lastHeartbeat :: int
  listed_registeredAt :: int
  listed_currentQueueId :: "string option"
  listed_secret :: "string option"
  offline :: bool

text \<open>The element built from a cached hash; \<open>now\<close> is the value of \<^verbatim>\<open>new Date()\<close>.\<close>

definition fromCache :: "int \<Rightarrow> (string \<times> string) list \<Rightarrow> listed_agent" where
  "fromCache now hash =
     \<lparr>listed_id = map_of hash ''id'', listed_name = map_of hash ''name'',
      listed_status = map_of hash ''status'',
      listed_lastHeartbeat = now, listed_registeredAt = now,
      listed_currentQueueId = None, listed_secret = None, offline = False\<rparr>"

text \<open>The element built from a durable row; \<open>now\<close> is the clock at the start of the call.\<close>

definition fromDurable :: "int \<Rightarrow> agent \<Rightarrow> listed_agent" where
  "fromDurable now a =
     \<lparr>listed_id = Some (agent_id a), listed_name = Some (agent_name a),
      listed_status = Some (agent_status a),
      listed_lastHeartbeat = agent_lastHeartbeat a, listed_registeredAt = agent_registeredAt a,
      listed_currentQueueId = agent_currentQueueId a, listed_secret = agent_secret a,
      offline = (now - agent_lastHeartbeat a > HEARTBEAT_TIMEOUT_MS)\<rparr>"

text \<open>
  The second cache command of \<^verbatim>\<open>listOnlineAgents\<close>: one \<^verbatim>\<open>hgetall\<close> per online
  id, keeping the hashes that are not empty.
\<close>

definition fetchAgentsData ::
  "int \<Rightarrow> string list \<Rightarrow> redis \<Rightarrow> (js_error + (string \<times> string) list list) \<times> redis" where
  "fetchAgentsData now onlineAgentIds r =
     (case exec now (map (\<lambda>agentId. Hgetall (AGENT_DATA agentId)) onlineAgentIds) r of
        (Inl err, r') \<Rightarrow> (Inl err, r')
      | (Inr results, r') \<Rightarrow>
          (Inr (filter (\<lambda>hash. hash \<noteq> [])
                  (concat (map (\<lambda>reply. case reply of HashReply hash \<Rightarrow> [hash] | _ \<Rightarrow> [])
                             results))),
           r'))"

text \<open>
  The first part of \<^verbatim>\<open>listOnlineAgents\<close>: the list it returns from the cache, or
  \<open>None\<close> when control falls through to the durable store.
\<close>

definition listFromCache :: "int \<Rightarrow> int \<Rightarrow> redis \<Rightarrow> listed_agent list option \<times> redis" where
  "listFromCache now later r =
     (case safeRedisCommand (smembers AGENTS_ONLINE) None r of
        (None, r1) \<Rightarrow> (None, r1)
      | (Some onlineAgentIds, r1) \<Rightarrow>
          if onlineAgentIds = [] then (None, r1)
          else
            (case safeRedisCommand (fetchAgentsData now onlineAgentIds) None r1 of
               (None, r2) \<Rightarrow> (None, r2)
             | (Some agentsData, r2) \<Rightarrow>
                 if agentsData = [] then (None, r2)
                 else (Some (map (fromCache later) agentsData), r2)))"

text \<open>
  \<^verbatim>\<open>listOnlineAgents\<close>: \<open>now\<close> is the clock at the start of the call, which is
  also when the cache answers; \<open>later\<close> is the clock where the body reads it again
  (\<^verbatim>\<open>new Date()\<close> for the cached elements, \<^verbatim>\<open>Date.now()\<close> in
  \<^verbatim>\<open>removeOfflineAgents\<close>).
\<close>

definition listOnlineAgents ::
  "int \<Rightarrow> int \<Rightarrow> agent list \<Rightarrow> redis \<Rightarrow> listed_agent list \<times> agent list \<times> redis" where
  "listOnlineAgents now later db r =
     (case listFromCache now later r of
        (Some listed, r') \<Rightarrow> (listed, db, r')
      | (None, r') \<Rightarrow>
          (case removeOfflineAgents later db r' of
             (db', r'') \<Rightarrow> (map (fromDurable now) db', db', r'')))"

text \<open>\<^verbatim>\<open>removeAgent\<close>: the durable store is not touched.\<close>

definition removeAgent :: "int \<Rightarrow> agent list \<Rightarrow> string \<Rightarrow> redis \<Rightarrow> bool \<times> agent list \<times> redis" where
  "removeAgent now db agentId r =
     (if \<not> isValidAgentId agentId then (False, db, r)
      else
        (case safeRedisCommand
                (exec now
                   [Srem AGENTS_ONLINE agentId, Del (AGENT_HEARTBEAT agentId),
                    Del (AGENT_DATA agentId)])
                None r of
           (ignored, r') \<Rightarrow> (True, db, r')))"

text \<open>\<^verbatim>\<open>getOnlineAgentCount\<close>\<close>

definition getOnlineAgentCount :: "int \<Rightarrow> agent list \<Rightarrow> redis \<Rightarrow> nat \<times> agent list \<times> redis" where
  "getOnlineAgentCount now db r =
     (case safeRedisCommand (scard AGENTS_ONLINE) None r of
        (Some count, r') \<Rightarrow> (count, db, r')
      | (None, r') \<Rightarrow>
          (case removeOfflineAgents now db r' of (db', r'') \<Rightarrow> (length db', db', r'')))"

section \<open>Coordinator: the agent routes\<close>

text \<open>
  The handlers of \<^verbatim>\<open>agentRoutes\<close>. A reply is a status code with a body, or the
  error that the handler throws again. The field \<open>agentId\<close> of a request body is
  \<open>None\<close> when it is missing or not a string. The \<^verbatim>\<open>requireApiKey\<close> hook of the
  protected routes belongs to the missing \<^verbatim>\<open>middleware/auth.js\<close>; the handlers below
  are what runs once it has let the request through.
\<close>

datatype reply_body =
    ErrorBody string
  | RegisteredBody register_result
  | OkTrue
  | AgentsBody "listed_agent list"

datatype reply = Reply nat reply_body | Rethrown js_error

text \<open>\<^verbatim>\<open>message.includes(needle)\<close>\<close>

fun includesText :: "string \<Rightarrow> string \<Rightarrow> bool" where
  "includesText [] needle = (needle = [])"
| "includesText (c # cs) needle = (prefix needle (c # cs) \<or> includesText cs needle)"

definition message :: "js_error \<Rightarrow> string" where
  "message err = (case err of Error text \<Rightarrow> text)"

definition registerRoute ::
  "int \<Rightarrow> agent list \<Rightarrow> string option \<Rightarrow> string option \<Rightarrow> redis \<Rightarrow> reply \<times> agent list \<times> redis" where
  "registerRoute now db agentId name r =
     (case agentId of
        None \<Rightarrow> (Reply 400 (ErrorBody ''agentId is required''), db, r)
      | Some agentId' \<Rightarrow>
          if agentId' = [] then (Reply 400 (ErrorBody ''agentId is required''), db, r)
          else
            (case registerAgent now db agentId' name r of
               Inr (result, db', r') \<Rightarrow> (Reply 200 (RegisteredBody result), db', r')
             | Inl err \<Rightarrow>
                 if includesText (message err) ''Invalid agentId''
                 then (Reply 400 (ErrorBody (message err)), db, r)
                 else (Rethrown err, db, r)))"

definition heartbeatRoute ::
  "int \<Rightarrow> agent list \<Rightarrow> string option \<Rightarrow> string option \<Rightarrow> string option \<Rightarrow> redis
     \<Rightarrow> reply \<times> agent list \<times> redis" where
  "heartbeatRoute now db agentId status currentQueueId r =
     (case agentId of
        None \<Rightarrow> (Reply 400 (ErrorBody ''agentId is required''), db, r)
      | Some agentId' \<Rightarrow>
          if agentId' = [] then (Reply 400 (ErrorBody ''agentId is required''), db, r)
          else
            (case updateHeartbeat now db agentId' status currentQueueId r of
               Inr (db', r') \<Rightarrow> (Reply 200 OkTrue, db', r')
             | Inl err \<Rightarrow>
                 if includesText (message err) ''Invalid agentId''
                 then (Reply 400 (ErrorBody (message err)), db, r)
                 else if includesText (message err) ''not registered''
                 then (Reply 404 (ErrorBody (message err)), db, r)
                 else (Rethrown err, db, r)))"

definition listRoute :: "int \<Rightarrow> int \<Rightarrow> agent list \<Rightarrow> redis \<Rightarrow> reply \<times> agent list \<times> redis" where
  "listRoute now later db r =
     (case listOnlineAgents now later db r of
        (listed, db', r') \<Rightarrow> (Reply 200 (AgentsBody listed), db', r'))"

definition deleteRoute :: "int \<Rightarrow> agent list \<Rightarrow> string \<Rightarrow> redis \<Rightarrow> reply \<times> agent list \<times> redis" where
  "deleteRoute now db agentId r =
     (case removeAgent now db agentId r of
        (success, db', r') \<Rightarrow>
          if \<not> success then (Reply 404 (ErrorBody ''Agent not found''), db', r')
          else (Reply 200 OkTrue, db', r'))"

section \<open>Coordinator: concrete states\<close>

text \<open>A cache whose client is ready and which holds nothing.\<close>

definition readyCache :: redis where
  "readyCache =
     \<lparr>redisDisabled = False, redisClient = Some Ready, redisUrl = ''redis://redis:6379'',
      constructorThrows = False, rejections = [],
      agentsOnline = [], agentHeartbeat = [], agentData = []\<rparr>"

text \<open>
  The durable store and the cache after \<^verbatim>\<open>agent-1\<close> has registered at time 0 on an
  empty store with the cache above.
\<close>

definition registeredDb :: "agent list" where
  "registeredDb =
     [\<lparr>agent_id = ''agent-1'', agent_name = ''Agent 1'', agent_status = ''idle'',
       agent_lastHeartbeat = 0, agent_currentQueueId = None, agent_registeredAt = 0,
       agent_secret = None\<rparr>]"

definition registeredCache :: redis where
  "registeredCache =
     \<lparr>redisDisabled = False, redisClient = Some Ready, redisUrl = ''redis://redis:6379'',
      constructorThrows = False, rejections = [],
      agentsOnline = [''agent-1''],
      agentHeartbeat = [(''agent-1'', 70000, ''0'')],
      agentData =
        [(''agent-1'', Some 70000,
          [(''id'', ''agent-1''), (''name'', ''Agent 1''), (''status'', ''idle''),
           (''registeredAt'', ''1970-01-01T00:00:00.000Z'')])]\<rparr>"

text \<open>The same cache once the connection has dropped and the client is reconnecting.\<close>

definition reconnectingCache :: redis where
  "reconnectingCache = registeredCache\<lparr>redisClient := Some Reconnecting\<rparr>"

text \<open>The same cache when the server is reachable but the next call is rejected.\<close>

definition rejectingCache :: redis where
  "rejectingCache = registeredCache\<lparr>rejections := [Some (Error ''Connection is closed.'')]\<rparr>"


section \<open>Properties of the wire codec\<close>

lemma decodeGroups_encodeGroups: "decodeGroups (encodeGroups n) = Some n"
proof (induction n rule: encodeGroups.induct)
  case (1 n)
  show ?case
  proof (cases "n < 128")
    case True
    then have "unat (of_nat n :: byte) = n"
      by (simp add: unat_of_nat)
    with True show ?thesis
      by (subst encodeGroups.simps) simp
  next
    case False
    have "n mod 128 + 128 < 256"
      by simp
    then have u: "unat (of_nat (n mod 128 + 128) :: byte) = n mod 128 + 128"
      by (subst unat_of_nat) simp
    from False 1 have ih: "decodeGroups (encodeGroups (n div 128)) = Some (n div 128)"
      by simp
    from False show ?thesis
      by (subst encodeGroups.simps) (simp del: of_nat_add add: u ih)
  qed
qed

lemma length_encodeGroups:
  "n < 2 ^ 35 \<Longrightarrow> length (encodeGroups n) =
     (if n < 2 ^ 7 then 1 else if n < 2 ^ 14 then 2 else if n < 2 ^ 21 then 3
      else if n < 2 ^ 28 then 4 else 5)"
  apply (subst encodeGroups.simps)
  apply (subst encodeGroups.simps)
  apply (subst encodeGroups.simps)
  apply (subst encodeGroups.simps)
  apply (subst encodeGroups.simps)
  apply (simp add: div_less_iff_less_mult)
  done

text \<open>
  Claim C1. For every integer \<open>n\<close> from 0 to 2^31-1, \<open>encode n\<close> succeeds with some
  bytes \<open>bs\<close>, \<open>decode bs\<close> gives back \<open>n\<close>, and \<open>encodingLength n\<close> is the number of
  bytes in \<open>bs\<close>; and \<open>encode 128\<close> is exactly the two bytes 0x80, 0x01.
\<close>

theorem varint_roundtrip:
  "(0 \<le> n \<and> n \<le> 2 ^ 31 - 1 \<longrightarrow>
      (\<exists>bs. encode n = Inr bs \<and> decode bs = Inr n \<and> length bs = encodingLength n))
   \<and> encode 128 = Inr [0x80, 0x01]"
proof (intro conjI impI)
  assume r: "0 \<le> n \<and> n \<le> 2 ^ 31 - 1"
  then have e: "encode n = Inr (encodeGroups (nat n))"
    by (simp add: encode_def)
  have d: "decode (encodeGroups (nat n)) = Inr n"
    using r by (simp add: decode_def decodeGroups_encodeGroups)
  have "nat n < 2 ^ 35"
    using r by (simp; linarith)
  then have "length (encodeGroups (nat n)) = encodingLength n"
    using r by (simp add: length_encodeGroups encodingLength_def nat_less_iff)
  with e d show "\<exists>bs. encode n = Inr bs \<and> decode bs = Inr n \<and> length bs = encodingLength n"
    by simp
next
  show "encode 128 = Inr [0x80, 0x01]"
    by (simp add: encode_def encodeGroups.simps)
qed

theorem varint_roundtrip_witness:
  "\<exists>bs. encode 25565 = Inr bs \<and> decode bs = Inr 25565 \<and> length bs = encodingLength 25565"
  using varint_roundtrip [of 25565] by simp

section \<open>Properties of the retry executor\<close>

text \<open>
  Claim C4. For every attempt index \<open>i\<close> and base delay \<open>b\<close>, the exponential delay is
  \<open>min (b * 2^i) 30000\<close> and so never exceeds 30000 ms, and the flat delay is \<open>b\<close>
  whatever \<open>i\<close> is.
\<close>

theorem calculateRetryDelay_capped:
  "calculateRetryDelay i b True = min (b * 2 ^ i) 30000
   \<and> calculateRetryDelay i b True \<le> 30000
   \<and> calculateRetryDelay i b False = b"
  by (simp add: calculateRetryDelay_def MAX_RETRY_DELAY_def)

theorem calculateRetryDelay_capped_witness:
  "calculateRetryDelay 0 1000 True = 1000 \<and> calculateRetryDelay 1 1000 True = 2000
   \<and> calculateRetryDelay 2 1000 True = 4000 \<and> calculateRetryDelay 20 1000 True = 30000
   \<and> calculateRetryDelay 5 1000 False = 1000"
  using calculateRetryDelay_capped [of 0 1000] calculateRetryDelay_capped [of 1 1000]
    calculateRetryDelay_capped [of 2 1000] calculateRetryDelay_capped [of 20 1000]
    calculateRetryDelay_capped [of 5 1000]
  by simp

lemma retryLoop_success:
  "j \<le> left \<Longrightarrow> \<forall>i<j. isl (fst (operation (stateBefore operation i s))) \<Longrightarrow>
   operation (stateBefore operation j s) = (Inr v, s') \<Longrightarrow>
   \<exists>ws. retryLoop operation d e attempt left s waits = (Inr (v, attempt + j + 1), s', ws)"
proof (induction left arbitrary: j s attempt waits)
  case 0
  then show ?case by simp
next
  case (Suc left)
  show ?case
  proof (cases j)
    case 0
    with Suc.prems show ?thesis by simp
  next
    case (Suc j')
    from Suc.prems(2) Suc have "isl (fst (operation s))"
      by (metis stateBefore.simps(1) zero_less_Suc)
    then obtain err s1 where op: "operation s = (Inl err, s1)"
      by (metis isl_def prod.collapse)
    have a: "j' \<le> left"
      using Suc.prems(1) Suc by simp
    have b: "\<forall>i<j'. isl (fst (operation (stateBefore operation i s1)))"
      using Suc.prems(2) Suc op by (metis Suc_less_eq snd_conv stateBefore.simps(2))
    have c: "operation (stateBefore operation j' s1) = (Inr v, s')"
      using Suc.prems(3) Suc op by simp
    from Suc.IH [OF a b c, of "attempt + 1" "waits @ [calculateRetryDelay attempt d e]"]
    show ?thesis using op Suc by simp
  qed
qed

lemma retryLoop_exhausted:
  "\<forall>i\<le>left. isl (fst (operation (stateBefore operation i s))) \<Longrightarrow>
   \<exists>ws. retryLoop operation d e attempt left s waits
     = (Inl (projl (fst (operation (stateBefore operation left s)))),
        snd (operation (stateBefore operation left s)), ws)"
proof (induction left arbitrary: s attempt waits)
  case 0
  then have "isl (fst (operation s))" by simp
  then obtain err s1 where op: "operation s = (Inl err, s1)"
    by (metis isl_def prod.collapse)
  then show ?case by simp
next
  case (Suc left)
  from Suc.prems have "isl (fst (operation s))"
    by (metis stateBefore.simps(1) le0)
  then obtain err s1 where op: "operation s = (Inl err, s1)"
    by (metis isl_def prod.collapse)
  have b: "\<forall>i\<le>left. isl (fst (operation (stateBefore operation i s1)))"
    using Suc.prems op by (metis Suc_le_mono snd_conv stateBefore.simps(2))
  from Suc.IH [OF b, of "attempt + 1" "waits @ [calculateRetryDelay attempt d e]"]
  show ?case using op by simp
qed

lemma stateBefore_counting:
  "stateBefore (counting operation) k (s, c) = (stateBefore operation k s, c + k)"
  by (induction k arbitrary: s c) (simp_all add: counting_def split: prod.splits)

lemma counting_apply:
  "counting operation (s, c) = (fst (operation s), snd (operation s), Suc c)"
  by (simp add: counting_def split: prod.splits)

lemma retryLoop_calls:
  "snd (fst (snd (retryLoop (counting operation) d e attempt left (s, c) waits))) \<le> c + left + 1"
proof (induction left arbitrary: s c attempt waits)
  case 0
  show ?case by (simp add: counting_apply split: sum.splits prod.splits)
next
  case (Suc left)
  show ?case
  proof (cases "fst (operation s)")
    case (Inl err)
    then show ?thesis
      using Suc.IH [of "attempt + 1" "snd (operation s)" "Suc c"
          "waits @ [calculateRetryDelay attempt d e]"]
      by (simp add: counting_apply)
  next
    case (Inr v)
    then show ?thesis by (simp add: counting_apply)
  qed
qed

lemma stateBefore_failsTwice: "stateBefore failsTwice 2 0 = 2"
  by (simp add: numeral_2_eq_2 failsTwice_def)

lemma stateBefore_alwaysFails: "stateBefore alwaysFails 2 0 = 2"
  by (simp add: numeral_2_eq_2 alwaysFails_def)

text \<open>
  Claim C3. Run on an operation whose invocations are counted from 0, \<open>withRetry\<close>
  invokes it at most \<open>retries + 1\<close> times. If invocation number \<open>j\<close> (0-based,
  \<open>j \<le> retries\<close>) is the first to succeed, with value \<open>v\<close>, the result is \<open>v\<close> with
  \<open>attempts = j + 1\<close> after exactly \<open>j + 1\<close> invocations. If all \<open>retries + 1\<close>
  invocations fail, the result is the error of the last one, unchanged.
\<close>

theorem withRetry_attempts:
  "snd (fst (snd (withRetry (counting operation) retries retryDelay exponential (s, 0))))
     \<le> retries + 1
   \<and> (\<forall>j v s'. j \<le> retries
         \<and> (\<forall>i<j. isl (fst (operation (stateBefore operation i s))))
         \<and> operation (stateBefore operation j s) = (Inr v, s')
       \<longrightarrow> fst (withRetry (counting operation) retries retryDelay exponential (s, 0))
             = Inr (v, j + 1)
           \<and> fst (snd (withRetry (counting operation) retries retryDelay exponential (s, 0)))
             = (s', j + 1))
   \<and> ((\<forall>i\<le>retries. isl (fst (operation (stateBefore operation i s))))
       \<longrightarrow> fst (withRetry (counting operation) retries retryDelay exponential (s, 0))
             = Inl (projl (fst (operation (stateBefore operation retries s))))
           \<and> fst (snd (withRetry (counting operation) retries retryDelay exponential (s, 0)))
             = (snd (operation (stateBefore operation retries s)), retries + 1))"
proof (intro conjI allI impI)
  show "snd (fst (snd (withRetry (counting operation) retries retryDelay exponential (s, 0))))
      \<le> retries + 1"
    using retryLoop_calls [of operation retryDelay exponential 0 retries s 0 "[]"]
    by (simp add: withRetry_def)
next
  fix j v s'
  assume a: "j \<le> retries \<and> (\<forall>i<j. isl (fst (operation (stateBefore operation i s))))
         \<and> operation (stateBefore operation j s) = (Inr v, s')"
  have b: "\<forall>i<j. isl (fst (counting operation (stateBefore (counting operation) i (s, 0))))"
    using a by (simp add: stateBefore_counting counting_apply)
  have c: "counting operation (stateBefore (counting operation) j (s, 0)) = (Inr v, (s', j + 1))"
    using a by (simp add: stateBefore_counting counting_apply)
  from a have d: "j \<le> retries" by simp
  from retryLoop_success [OF d b c, of retryDelay exponential 0 "[]"]
  show "fst (withRetry (counting operation) retries retryDelay exponential (s, 0)) = Inr (v, j + 1)"
    and "fst (snd (withRetry (counting operation) retries retryDelay exponential (s, 0))) = (s', j + 1)"
    by (auto simp: withRetry_def)
next
  assume a: "\<forall>i\<le>retries. isl (fst (operation (stateBefore operation i s)))"
  have b: "\<forall>i\<le>retries. isl (fst (counting operation (stateBefore (counting operation) i (s, 0))))"
    using a by (simp add: stateBefore_counting counting_apply)
  from retryLoop_exhausted [OF b, of retryDelay exponential 0 "[]"]
  show "fst (withRetry (counting operation) retries retryDelay exponential (s, 0))
             = Inl (projl (fst (operation (stateBefore operation retries s))))"
    and "fst (snd (withRetry (counting operation) retries retryDelay exponential (s, 0)))
             = (snd (operation (stateBefore operation retries s)), retries + 1)"
    by (auto simp: withRetry_def stateBefore_counting counting_apply)
qed

theorem withRetry_attempts_witness:
  "fst (withRetry (counting failsTwice) 5 10 True (0, 0)) = Inr (''ok'', 3)
   \<and> fst (withRetry (counting alwaysFails) 2 10 True (0, 0)) = Inl (Error ''always fails'')"
proof -
  have f: "\<forall>i<2. isl (fst (failsTwice (stateBefore failsTwice i 0)))"
    by (simp add: less_Suc_eq numeral_2_eq_2 failsTwice_def)
  have g: "failsTwice (stateBefore failsTwice 2 0) = (Inr ''ok'', 3)"
    by (simp add: stateBefore_failsTwice failsTwice_def)
  have h: "\<forall>i\<le>2. isl (fst (alwaysFails (stateBefore alwaysFails i 0)))"
    by (simp add: alwaysFails_def)
  note ok = withRetry_attempts [of failsTwice 5 10 True 0, THEN conjunct2, THEN conjunct1,
      rule_format, of 2 "''ok''" 3]
  have "fst (withRetry (counting failsTwice) 5 10 True (0, 0)) = Inr (''ok'', 2 + 1)"
    using ok f g by simp
  moreover have "fst (withRetry (counting alwaysFails) 2 10 True (0, 0))
      = Inl (Error ''always fails'')"
    using withRetry_attempts [of alwaysFails 2 10 True 0] h
    by (simp add: stateBefore_alwaysFails alwaysFails_def)
  ultimately show ?thesis by simp
qed

section \<open>Properties of the mode classifier\<close>

lemma valid_uuid_example: "isValidUUIDFormatSync ''069a79f4-44e9-4726-a5be-fca90e38aaf5''"
  by (simp add: isValidUUIDFormatSync_def isHexDigit_def)

lemma invalid_uuid_example: "\<not> isValidUUIDFormatSync ''badid''"
  by (simp add: isValidUUIDFormatSync_def isHexDigit_def)

text \<open>
  Claim C8. On the empty list the classifier returns unknown; on a non-empty list whose
  ids all have the dashed-hex format it returns online; on a list with at least one id
  that fails the format check it returns unknown; and it never returns offline.
\<close>

theorem detectServerModeSync_cases:
  "detectServerModeSync [] = Unknown
   \<and> (players \<noteq> [] \<and> (\<forall>p \<in> set players. isValidUUIDFormatSync (player_id p))
        \<longrightarrow> detectServerModeSync players = Online)
   \<and> ((\<exists>p \<in> set players. \<not> isValidUUIDFormatSync (player_id p))
        \<longrightarrow> detectServerModeSync players = Unknown)
   \<and> detectServerModeSync players \<noteq> Offline"
  by (auto simp: detectServerModeSync_def list_all_iff)

theorem detectServerModeSync_cases_witness:
  "detectServerModeSync
     [\<lparr>player_id = ''069a79f4-44e9-4726-a5be-fca90e38aaf5'', player_name = ''Notch''\<rparr>] = Online
   \<and> detectServerModeSync
     [\<lparr>player_id = ''069a79f4-44e9-4726-a5be-fca90e38aaf5'', player_name = ''Notch''\<rparr>,
      \<lparr>player_id = ''badid'', player_name = ''Fake''\<rparr>] = Unknown"
  using detectServerModeSync_cases
      [of "[\<lparr>player_id = ''069a79f4-44e9-4726-a5be-fca90e38aaf5'', player_name = ''Notch''\<rparr>]"]
    detectServerModeSync_cases
      [of "[\<lparr>player_id = ''069a79f4-44e9-4726-a5be-fca90e38aaf5'', player_name = ''Notch''\<rparr>,
            \<lparr>player_id = ''badid'', player_name = ''Fake''\<rparr>]"]
    valid_uuid_example invalid_uuid_example
  by simp

section \<open>Properties of the JSON depth guard\<close>

lemma maxDepth_Nil: "maxDepth [] = 0"
  by (simp add: maxDepth_def)

lemma maxDepth_Cons: "maxDepth (d # ds) = max d (maxDepth ds)"
  by (simp add: maxDepth_def)

lemma maxDepth_map_min: "maxDepth (map (\<lambda>x. min (f x) c) xs) = min (maxDepth (map f xs)) c"
  by (induction xs) (auto simp: maxDepth_Nil maxDepth_Cons)

lemma maxDepth_cong:
  "(\<And>x. x \<in> set xs \<Longrightarrow> f x = g x) \<Longrightarrow> maxDepth (map f xs) = maxDepth (map g xs)"
  by (induction xs) (auto simp: maxDepth_Nil maxDepth_Cons)

lemma depthWithin_min: "depthWithin left v = min (nestingDepth v) (Suc left)"
proof (induction left arbitrary: v)
  case 0
  show ?case by (cases v) simp_all
next
  case (Suc left)
  show ?case
  proof (cases v)
    case (JArray vs)
    have "maxDepth (map (depthWithin left) vs)
        = maxDepth (map (\<lambda>x. min (nestingDepth x) (Suc left)) vs)"
      by (rule maxDepth_cong) (simp add: Suc.IH)
    then show ?thesis
      using JArray by (simp add: maxDepth_map_min)
  next
    case (JObject kvs)
    have "maxDepth (map (\<lambda>kv. depthWithin left (snd kv)) kvs)
        = maxDepth (map (\<lambda>kv. min (nestingDepth (snd kv)) (Suc left)) kvs)"
      by (rule maxDepth_cong) (simp add: Suc.IH)
    then show ?thesis
      using JObject by (simp add: maxDepth_map_min)
  qed simp_all
qed

lemma nestingDepth_nested: "nestingDepth (nested n) = n"
  by (induction n) (simp_all add: maxDepth_def)

lemma getJsonDepth_min: "getJsonDepth v = min (nestingDepth v) 33"
  by (simp add: getJsonDepth_def depthWithin_min MAX_JSON_DEPTH_def)

lemma maxDepth_getJsonDepth:
  "maxDepth (map (\<lambda>x. getJsonDepth (f x)) xs) = min (maxDepth (map (\<lambda>x. nestingDepth (f x)) xs)) 33"
  by (simp only: getJsonDepth_min maxDepth_map_min)

text \<open>
  Claim C9. \<open>getJsonDepth\<close> is 0 on scalars, null and undefined and 1 on an empty
  container. On a container it is 1 plus the maximum over its children, cut off at one
  more than the configured maximum of 32; on every value it is the nesting depth cut off
  there, so it is at most 33, and the 50-level structure of the test measures at most 33.
\<close>

theorem getJsonDepth_capped:
  "getJsonDepth v = min (nestingDepth v) (MAX_JSON_DEPTH + 1)
   \<and> getJsonDepth v \<le> 33
   \<and> getJsonDepth JNull = 0 \<and> getJsonDepth JUndefined = 0 \<and> getJsonDepth (JBool b) = 0
   \<and> getJsonDepth (JNumber i) = 0 \<and> getJsonDepth (JString t) = 0
   \<and> getJsonDepth (JArray []) = 1 \<and> getJsonDepth (JObject []) = 1
   \<and> getJsonDepth (JArray vs) = min (1 + maxDepth (map getJsonDepth vs)) 33
   \<and> getJsonDepth (JObject kvs)
       = min (1 + maxDepth (map (\<lambda>kv. getJsonDepth (snd kv)) kvs)) 33
   \<and> getJsonDepth (nested 50) \<le> 33"
proof -
  have children: "maxDepth (map getJsonDepth vs) = min (maxDepth (map nestingDepth vs)) 33"
    using maxDepth_getJsonDepth [of "\<lambda>x. x" vs] by simp
  have "getJsonDepth (JArray vs) = min (1 + maxDepth (map nestingDepth vs)) 33"
    by (simp add: getJsonDepth_min)
  also have "\<dots> = min (1 + min (maxDepth (map nestingDepth vs)) 33) 33"
    by simp
  also have "\<dots> = min (1 + maxDepth (map getJsonDepth vs)) 33"
    by (simp only: children)
  finally have arr: "getJsonDepth (JArray vs) = min (1 + maxDepth (map getJsonDepth vs)) 33" .
  have members: "maxDepth (map (\<lambda>kv. getJsonDepth (snd kv)) kvs)
      = min (maxDepth (map (\<lambda>kv. nestingDepth (snd kv)) kvs)) 33"
    by (rule maxDepth_getJsonDepth)
  have "getJsonDepth (JObject kvs)
      = min (1 + maxDepth (map (\<lambda>kv. nestingDepth (snd kv)) kvs)) 33"
    by (simp add: getJsonDepth_min)
  also have "\<dots> = min (1 + min (maxDepth (map (\<lambda>kv. nestingDepth (snd kv)) kvs)) 33) 33"
    by simp
  also have "\<dots> = min (1 + maxDepth (map (\<lambda>kv. getJsonDepth (snd kv)) kvs)) 33"
    by (simp only: members)
  finally have obj: "getJsonDepth (JObject kvs)
       = min (1 + maxDepth (map (\<lambda>kv. getJsonDepth (snd kv)) kvs)) 33" .
  have rest: "getJsonDepth v = min (nestingDepth v) (MAX_JSON_DEPTH + 1)
   \<and> getJsonDepth v \<le> 33
   \<and> getJsonDepth JNull = 0 \<and> getJsonDepth JUndefined = 0 \<and> getJsonDepth (JBool b) = 0
   \<and> getJsonDepth (JNumber i) = 0 \<and> getJsonDepth (JString t) = 0
   \<and> getJsonDepth (JArray []) = 1 \<and> getJsonDepth (JObject []) = 1
   \<and> getJsonDepth (nested 50) \<le> 33"
    by (simp add: getJsonDepth_min MAX_JSON_DEPTH_def maxDepth_def)
  from arr obj rest show ?thesis by blast
qed

theorem getJsonDepth_capped_witness:
  "getJsonDepth (nested 50) = 33
   \<and> getJsonDepth (JObject [(''a'', JArray [JObject [(''b'', JNumber 1)]])]) = 3"
  using getJsonDepth_capped [of "nested 50"]
    getJsonDepth_capped [of "JObject [(''a'', JArray [JObject [(''b'', JNumber 1)]])]"]
  by (simp add: nestingDepth_nested MAX_JSON_DEPTH_def maxDepth_def)

section \<open>Properties of the agent service\<close>

lemma lower_case_codes:
  "97 \<le> n \<Longrightarrow> n \<le> 122 \<Longrightarrow> (n::nat) \<in> of_char ` set ''abcdefghijklmnopqrstuvwxyz''"
  by (simp; arith)

lemma upper_case_codes:
  "65 \<le> n \<Longrightarrow> n \<le> 90 \<Longrightarrow> (n::nat) \<in> of_char ` set ''ABCDEFGHIJKLMNOPQRSTUVWXYZ''"
  by (simp; arith)

lemma digit_codes:
  "48 \<le> n \<Longrightarrow> n \<le> 57 \<Longrightarrow> (n::nat) \<in> of_char ` set ''0123456789''"
  by (simp; arith)

lemma of_char_image_mem: "(of_char c :: nat) \<in> of_char ` A \<Longrightarrow> c \<in> A"
  by auto

lemma isAgentIdChar_iff:
  "isAgentIdChar c \<longleftrightarrow>
     c \<in> set ''abcdefghijklmnopqrstuvwxyzABCDEFGHIJKLMNOPQRSTUVWXYZ0123456789_-''"
proof
  assume "isAgentIdChar c"
  then consider "97 \<le> (of_char c :: nat) \<and> (of_char c :: nat) \<le> 122"
    | "65 \<le> (of_char c :: nat) \<and> (of_char c :: nat) \<le> 90"
    | "48 \<le> (of_char c :: nat) \<and> (of_char c :: nat) \<le> 57"
    | "c = CHR ''_'' \<or> c = CHR ''-''"
    by (auto simp: isAgentIdChar_def Let_def)
  then show "c \<in> set ''abcdefghijklmnopqrstuvwxyzABCDEFGHIJKLMNOPQRSTUVWXYZ0123456789_-''"
  proof cases
    case 1
    then have "(of_char c :: nat) \<in> of_char ` set ''abcdefghijklmnopqrstuvwxyz''"
      using lower_case_codes [of "of_char c"] by blast
    then have "c \<in> set ''abcdefghijklmnopqrstuvwxyz''"
      by (rule of_char_image_mem)
    then show ?thesis by auto
  next
    case 2
    then have "(of_char c :: nat) \<in> of_char ` set ''ABCDEFGHIJKLMNOPQRSTUVWXYZ''"
      using upper_case_codes [of "of_char c"] by blast
    then have "c \<in> set ''ABCDEFGHIJKLMNOPQRSTUVWXYZ''"
      by (rule of_char_image_mem)
    then show ?thesis by auto
  next
    case 3
    then have "(of_char c :: nat) \<in> of_char ` set ''0123456789''"
      using digit_codes [of "of_char c"] by blast
    then have "c \<in> set ''0123456789''"
      by (rule of_char_image_mem)
    then show ?thesis by auto
  next
    case 4
    then show ?thesis by auto
  qed
next
  assume "c \<in> set ''abcdefghijklmnopqrstuvwxyzABCDEFGHIJKLMNOPQRSTUVWXYZ0123456789_-''"
  then show "isAgentIdChar c"
    by (auto simp: isAgentIdChar_def)
qed

lemma isValidAgentId_iff:
  "isValidAgentId agentId \<longleftrightarrow>
     1 \<le> length agentId \<and> length agentId \<le> 100
     \<and> set agentId \<subseteq> set ''abcdefghijklmnopqrstuvwxyzABCDEFGHIJKLMNOPQRSTUVWXYZ0123456789_-''"
proof -
  have "list_all isAgentIdChar agentId \<longleftrightarrow>
      set agentId \<subseteq> set ''abcdefghijklmnopqrstuvwxyzABCDEFGHIJKLMNOPQRSTUVWXYZ0123456789_-''"
    unfolding list_all_iff isAgentIdChar_iff subset_eq by (rule refl)
  moreover have "agentId \<noteq> [] \<longleftrightarrow> 1 \<le> length agentId"
    by (cases agentId) simp_all
  ultimately show ?thesis
    unfolding isValidAgentId_def by blast
qed

lemma insertOnConflictDoUpdate_ids:
  "agentId \<in> set (map agent_id (insertOnConflictDoUpdate now agentId agentName db))"
proof (cases "agentId \<in> set (map agent_id db)")
  case True
  have key: "map agent_id
         (map (\<lambda>a. if agent_id a = agentId then conflictSet now agentName a else a) db)
       = map agent_id db"
    by (induction db) (simp_all add: conflictSet_def)
  show ?thesis
    unfolding insertOnConflictDoUpdate_def by (simp only: True if_True key)
next
  case False
  then show ?thesis
    by (simp add: insertOnConflictDoUpdate_def insertDefaults_def)
qed

lemma insertOnConflictDoUpdate_row:
  assumes mem: "a \<in> set (insertOnConflictDoUpdate now agentId agentName db)"
    and id: "agent_id a = agentId"
  shows "agent_name a = agentName \<and> agent_status a = ''idle'' \<and> agent_lastHeartbeat a = now
     \<and> agent_currentQueueId a = None"
proof (cases "agentId \<in> set (map agent_id db)")
  case True
  with mem obtain b where b: "b \<in> set db"
    and a: "a = (if agent_id b = agentId then conflictSet now agentName b else b)"
    unfolding insertOnConflictDoUpdate_def by (simp only: if_True set_map) blast
  show ?thesis
  proof (cases "agent_id b = agentId")
    case True
    with a show ?thesis by (simp add: conflictSet_def)
  next
    case False
    with a id show ?thesis by simp
  qed
next
  case False
  with mem have "a \<in> set db \<or> a = insertDefaults now agentId agentName ''idle''"
    unfolding insertOnConflictDoUpdate_def by auto
  then show ?thesis
  proof
    assume "a \<in> set db"
    with id False show ?thesis by auto
  next
    assume "a = insertDefaults now agentId agentName ''idle''"
    then show ?thesis by (simp add: insertDefaults_def)
  qed
qed

lemma insertOnConflictDoUpdate_others:
  "filter (\<lambda>a. agent_id a \<noteq> agentId) (insertOnConflictDoUpdate now agentId agentName db)
     = filter (\<lambda>a. agent_id a \<noteq> agentId) db"
proof -
  have "filter (\<lambda>a. agent_id a \<noteq> agentId)
          (map (\<lambda>a. if agent_id a = agentId then conflictSet now agentName a else a) db)
        = filter (\<lambda>a. agent_id a \<noteq> agentId) db"
    by (induction db) (simp_all add: conflictSet_def)
  then show ?thesis
    by (simp add: insertOnConflictDoUpdate_def insertDefaults_def)
qed

lemma registerAgent_invalid:
  "\<not> isValidAgentId agentId \<Longrightarrow>
     registerAgent now db agentId name r = Inl (Error ''Invalid agentId format'')"
  by (simp add: registerAgent_def)

lemma registerAgent_valid:
  "isValidAgentId agentId \<Longrightarrow>
     \<exists>agentName r'. registerAgent now db agentId name r
       = Inr (\<lparr>result_agentId = agentId, result_agentName = agentName\<rparr>,
              insertOnConflictDoUpdate now agentId agentName db, r')"
  by (simp add: registerAgent_def Let_def split: prod.splits)

lemma registerAgent_cases:
  "((\<exists>err. registerAgent now db agentId name r = Inl err) \<longleftrightarrow> \<not> isValidAgentId agentId)
   \<and> (\<forall>err. registerAgent now db agentId name r = Inl err \<longrightarrow> err = Error ''Invalid agentId format'')
   \<and> (\<forall>result db' r'. registerAgent now db agentId name r = Inr (result, db', r') \<longrightarrow>
         result_agentId result = agentId
         \<and> (\<exists>a \<in> set db'. agent_id a = agentId)
         \<and> (\<forall>a \<in> set db'. agent_id a = agentId \<longrightarrow>
               agent_status a = ''idle'' \<and> agent_lastHeartbeat a = now
               \<and> agent_currentQueueId a = None \<and> agent_name a = result_agentName result)
         \<and> filter (\<lambda>a. agent_id a \<noteq> agentId) db' = filter (\<lambda>a. agent_id a \<noteq> agentId) db)"
proof (cases "isValidAgentId agentId")
  case False
  then have "registerAgent now db agentId name r = Inl (Error ''Invalid agentId format'')"
    by (rule registerAgent_invalid)
  with False show ?thesis
    by simp
next
  case True
  then obtain agentName r1 where
    reg: "registerAgent now db agentId name r
       = Inr (\<lparr>result_agentId = agentId, result_agentName = agentName\<rparr>,
              insertOnConflictDoUpdate now agentId agentName db, r1)"
    using registerAgent_valid by blast
  have one: "(\<exists>err. registerAgent now db agentId name r = Inl err) \<longleftrightarrow> \<not> isValidAgentId agentId"
    using True by (simp add: reg)
  have two: "\<forall>err. registerAgent now db agentId name r = Inl err \<longrightarrow> err = Error ''Invalid agentId format''"
    by (simp add: reg)
  have three: "result_agentId result = agentId
         \<and> (\<exists>a \<in> set db'. agent_id a = agentId)
         \<and> (\<forall>a \<in> set db'. agent_id a = agentId \<longrightarrow>
               agent_status a = ''idle'' \<and> agent_lastHeartbeat a = now
               \<and> agent_currentQueueId a = None \<and> agent_name a = result_agentName result)
         \<and> filter (\<lambda>a. agent_id a \<noteq> agentId) db' = filter (\<lambda>a. agent_id a \<noteq> agentId) db"
    if eq: "registerAgent now db agentId name r = Inr (result, db', r')" for result db' r'
  proof -
    from eq reg have res: "result = \<lparr>result_agentId = agentId, result_agentName = agentName\<rparr>"
      and db': "db' = insertOnConflictDoUpdate now agentId agentName db"
      by simp_all
    have "agentId \<in> agent_id ` set db'"
      using insertOnConflictDoUpdate_ids [of agentId now agentName db] unfolding db' by simp
    then have ex: "\<exists>a \<in> set db'. agent_id a = agentId"
      by blast
    have rows: "\<forall>a \<in> set db'. agent_id a = agentId \<longrightarrow>
        agent_status a = ''idle'' \<and> agent_lastHeartbeat a = now
        \<and> agent_currentQueueId a = None \<and> agent_name a = result_agentName result"
      unfolding db' res using insertOnConflictDoUpdate_row [of _ now agentId agentName db]
      by simp
    have others: "filter (\<lambda>a. agent_id a \<noteq> agentId) db' = filter (\<lambda>a. agent_id a \<noteq> agentId) db"
      unfolding db' by (rule insertOnConflictDoUpdate_others)
    have "result_agentId result = agentId"
      by (simp add: res)
    with ex rows others show ?thesis
      by (intro conjI)
  qed
  from one two three show ?thesis
    by (intro conjI allI impI) blast+
qed

lemma selectById_None: "selectById agentId db = None \<longleftrightarrow> agentId \<notin> set (map agent_id db)"
  by (auto simp: selectById_def find_None_iff)

lemma updateHeartbeat_ok:
  "isValidAgentId agentId \<Longrightarrow> agentId \<in> set (map agent_id db) \<Longrightarrow>
     \<exists>r'. updateHeartbeat now db agentId status currentQueueId r
       = Inr (updateById now status currentQueueId agentId db, r')"
proof -
  assume v: "isValidAgentId agentId" and m: "agentId \<in> set (map agent_id db)"
  from m obtain existing where "selectById agentId db = Some existing"
    using selectById_None [of agentId db] by (cases "selectById agentId db") auto
  with v show ?thesis
    by (simp add: updateHeartbeat_def Let_def split: prod.splits)
qed

lemma heartbeatSet_fields:
  "agent_id (heartbeatSet now status currentQueueId a) = agent_id a"
  "agent_name (heartbeatSet now status currentQueueId a) = agent_name a"
  "agent_registeredAt (heartbeatSet now status currentQueueId a) = agent_registeredAt a"
  "agent_secret (heartbeatSet now status currentQueueId a) = agent_secret a"
  "agent_lastHeartbeat (heartbeatSet now status currentQueueId a) = now"
  "agent_status (heartbeatSet now status currentQueueId a)
     = (case status of None \<Rightarrow> agent_status a | Some st \<Rightarrow> if st = [] then agent_status a else st)"
  "agent_currentQueueId (heartbeatSet now status currentQueueId a)
     = (case currentQueueId of None \<Rightarrow> agent_currentQueueId a | Some q \<Rightarrow> Some q)"
  by (simp_all add: heartbeatSet_def)

lemma updateById_ids: "map agent_id (updateById now status currentQueueId agentId db) = map agent_id db"
  by (induction db) (simp_all add: updateById_def heartbeatSet_fields)

lemma updateById_heartbeat:
  assumes "a \<in> set (updateById now status currentQueueId agentId db)" and "agent_id a = agentId"
  shows "agent_lastHeartbeat a = now"
proof -
  from assms(1) obtain b where "b \<in> set db"
    and a: "a = (if agent_id b = agentId then heartbeatSet now status currentQueueId b else b)"
    unfolding updateById_def by (simp only: set_map) blast
  with assms(2) show ?thesis
    by (cases "agent_id b = agentId") (simp_all add: heartbeatSet_fields)
qed

lemma includes_invalid: "includesText ''Invalid agentId format'' ''Invalid agentId''"
  by simp

lemma includes_not_registered:
  "\<not> includesText ''Agent not registered'' ''Invalid agentId''"
  "includesText ''Agent not registered'' ''not registered''"
  by simp_all

lemma updateHeartbeat_Inr:
  "updateHeartbeat now db agentId status currentQueueId r = Inr (db', r') \<Longrightarrow>
     db' = updateById now status currentQueueId agentId db
     \<and> isValidAgentId agentId \<and> agentId \<in> set (map agent_id db)"
  using selectById_None [of agentId db]
  by (auto simp: updateHeartbeat_def Let_def split: if_splits option.splits prod.splits)

lemma isRedisAvailable_iff:
  "fst (isRedisAvailable r) \<longleftrightarrow> \<not> redisDisabled r \<and> redisClient r = Some Ready"
  by (simp add: isRedisAvailable_def getRedisClient_def)

lemma getRedisClient_available:
  "fst (isRedisAvailable r) \<Longrightarrow> getRedisClient r = (Some Ready, r)"
  by (simp add: isRedisAvailable_iff getRedisClient_def)

lemma getRedisClient_unavailable:
  "\<not> fst (isRedisAvailable r) \<Longrightarrow>
     fst (getRedisClient r) \<noteq> Some Ready
     \<and> \<not> fst (isRedisAvailable (snd (getRedisClient r)))
     \<and> agentsOnline (snd (getRedisClient r)) = agentsOnline r
     \<and> agentHeartbeat (snd (getRedisClient r)) = agentHeartbeat r
     \<and> agentData (snd (getRedisClient r)) = agentData r"
  by (auto simp: isRedisAvailable_iff getRedisClient_def)

lemma safeRedisCommand_available:
  "fst (isRedisAvailable r) \<Longrightarrow>
     safeRedisCommand command fallbackValue r
       = (case command r of (Inr v, r'') \<Rightarrow> (Some v, r'') | (Inl err, r'') \<Rightarrow> (fallbackValue, r''))"
  by (simp add: safeRedisCommand_def getRedisClient_available split: prod.splits sum.splits)

lemma safeRedisCommand_unavailable:
  "\<not> fst (isRedisAvailable r) \<Longrightarrow>
     safeRedisCommand command fallbackValue r = (fallbackValue, snd (getRedisClient r))"
  using getRedisClient_unavailable [of r]
  by (cases "getRedisClient r") (auto simp: safeRedisCommand_def)

lemma send_rejected:
  "rejections r = Some err # rest \<Longrightarrow> send call r = (Inl err, r\<lparr>rejections := rest\<rparr>)"
  by (simp add: send_def)

lemma rejections_unchanged: "rejections r = [] \<Longrightarrow> r\<lparr>rejections := []\<rparr> = r"
  by (cases r) simp

lemma send_answered:
  "rejections r = [] \<or> hd (rejections r) = None \<Longrightarrow>
     send call r = (Inr (fst (call (r\<lparr>rejections := tl (rejections r)\<rparr>))),
                    snd (call (r\<lparr>rejections := tl (rejections r)\<rparr>)))"
  by (cases "rejections r") (auto simp: send_def rejections_unchanged split: prod.splits option.splits)

lemma runCommand_connection:
  "redisDisabled (snd (runCommand now command r)) = redisDisabled r
   \<and> redisClient (snd (runCommand now command r)) = redisClient r
   \<and> rejections (snd (runCommand now command r)) = rejections r"
  by (cases "(now, command, r)" rule: runCommand.cases)
     (simp_all split: option.splits prod.splits)

lemma runCommands_Hgetall:
  "runCommands now (map (\<lambda>agentId. Hgetall (AGENT_DATA agentId)) ids) r
     = (map (\<lambda>agentId. HashReply (hgetall now agentId r)) ids, r)"
  by (induction ids) simp_all

lemma fetchAgentsData_answered:
  "rejections r = [] \<or> hd (rejections r) = None \<Longrightarrow>
     fetchAgentsData now ids r
       = (Inr (filter (\<lambda>hash. hash \<noteq> []) (map (\<lambda>agentId. hgetall now agentId r) ids)),
          r\<lparr>rejections := tl (rejections r)\<rparr>)"
proof -
  assume a: "rejections r = [] \<or> hd (rejections r) = None"
  have h: "\<And>agentId. hgetall now agentId (r\<lparr>rejections := tl (rejections r)\<rparr>) = hgetall now agentId r"
    by (simp add: hgetall_def liveData_def)
  have c: "concat (map ((\<lambda>reply. case reply of HashReply hash \<Rightarrow> [hash] | _ \<Rightarrow> [])
                       \<circ> (\<lambda>agentId. HashReply (hgetall now agentId r))) ids)
         = map (\<lambda>agentId. hgetall now agentId r) ids"
    by (induction ids) simp_all
  show ?thesis
    using a by (simp add: fetchAgentsData_def exec_def send_answered runCommands_Hgetall h c)
qed

lemma fetchAgentsData_rejected:
  "rejections r = Some err # rest \<Longrightarrow>
     fetchAgentsData now ids r = (Inl err, r\<lparr>rejections := rest\<rparr>)"
  by (simp add: fetchAgentsData_def exec_def send_rejected)

lemma smembers_answered:
  "rejections r = [] \<or> hd (rejections r) = None \<Longrightarrow>
     smembers AGENTS_ONLINE r = (Inr (agentsOnline r), r\<lparr>rejections := tl (rejections r)\<rparr>)"
  by (simp add: smembers_def send_answered)

lemma smembers_rejected:
  "rejections r = Some err # rest \<Longrightarrow>
     smembers AGENTS_ONLINE r = (Inl err, r\<lparr>rejections := rest\<rparr>)"
  by (simp add: smembers_def send_rejected)

lemma isRedisAvailable_rejections:
  "fst (isRedisAvailable (r\<lparr>rejections := x\<rparr>)) = fst (isRedisAvailable r)"
  by (simp add: isRedisAvailable_iff)

lemma hgetall_rejections: "hgetall now agentId (r\<lparr>rejections := x\<rparr>) = hgetall now agentId r"
  by (simp add: hgetall_def liveData_def)

lemma agentsOnline_rejections: "agentsOnline (r\<lparr>rejections := x\<rparr>) = agentsOnline r"
  by simp

lemma first_two_answered:
  "(\<forall>e \<in> set (take 2 (rejections r)). e = None) \<longleftrightarrow>
     (rejections r = [] \<or> hd (rejections r) = None)
     \<and> (tl (rejections r) = [] \<or> hd (tl (rejections r)) = None)"
proof (cases "rejections r")
  case Nil
  then show ?thesis by simp
next
  case (Cons e rest)
  then show ?thesis
    by (cases rest) (auto simp: numeral_2_eq_2)
qed

lemma not_answeredE:
  assumes "\<not> (xs = [] \<or> hd xs = None)"
  obtains err rest where "xs = Some err # rest"
  using assms by (cases xs) auto

lemma listFromCache_unavailable:
  assumes un: "\<not> fst (isRedisAvailable r)"
  shows "fst (listFromCache now later r) = None
     \<and> \<not> fst (isRedisAvailable (snd (listFromCache now later r)))"
proof -
  have s: "safeRedisCommand (smembers AGENTS_ONLINE) None r = (None, snd (getRedisClient r))"
    using un by (rule safeRedisCommand_unavailable)
  have "listFromCache now later r = (None, snd (getRedisClient r))"
    unfolding listFromCache_def s by simp
  moreover have "\<not> fst (isRedisAvailable (snd (getRedisClient r)))"
    using getRedisClient_unavailable [OF un] by blast
  ultimately show ?thesis by simp
qed

lemma listFromCache_available:
  assumes av: "fst (isRedisAvailable r)"
  shows "fst (isRedisAvailable (snd (listFromCache now later r)))
     \<and> fst (listFromCache now later r)
       = (if (\<forall>e \<in> set (take 2 (rejections r)). e = None)
             \<and> filter (\<lambda>hash. hash \<noteq> []) (map (\<lambda>agentId. hgetall now agentId r) (agentsOnline r)) \<noteq> []
          then Some (map (fromCache later)
                 (filter (\<lambda>hash. hash \<noteq> []) (map (\<lambda>agentId. hgetall now agentId r) (agentsOnline r))))
          else None)"
proof (cases "rejections r = [] \<or> hd (rejections r) = None")
  case False
  then obtain err rest where rej: "rejections r = Some err # rest"
    by (rule not_answeredE)
  then have "\<not> (\<forall>e \<in> set (take 2 (rejections r)). e = None)"
    by (simp add: numeral_2_eq_2)
  moreover have "listFromCache now later r = (None, r\<lparr>rejections := rest\<rparr>)"
    using av rej by (simp add: listFromCache_def safeRedisCommand_available smembers_rejected)
  ultimately show ?thesis
    using av by (simp add: isRedisAvailable_rejections)
next
  case True
  define r1 where "r1 = r\<lparr>rejections := tl (rejections r)\<rparr>"
  have av1: "fst (isRedisAvailable r1)"
    using av by (simp add: r1_def isRedisAvailable_rejections)
  have first: "safeRedisCommand (smembers AGENTS_ONLINE) None r = (Some (agentsOnline r), r1)"
    using av True by (simp add: safeRedisCommand_available smembers_answered r1_def)
  show ?thesis
  proof (cases "agentsOnline r = []")
    case True
    then have "listFromCache now later r = (None, r1)"
      using first by (simp add: listFromCache_def)
    with True av1 show ?thesis by simp
  next
    case nonempty: False
    show ?thesis
    proof (cases "rejections r1 = [] \<or> hd (rejections r1) = None")
      case False
      then obtain err rest where rej: "rejections r1 = Some err # rest"
        by (rule not_answeredE)
      then have "\<not> (\<forall>e \<in> set (take 2 (rejections r)). e = None)"
        by (simp add: first_two_answered r1_def)
      moreover have "listFromCache now later r = (None, r1\<lparr>rejections := rest\<rparr>)"
        using av1 rej first nonempty
        by (simp add: listFromCache_def safeRedisCommand_available fetchAgentsData_rejected)
      ultimately show ?thesis
        using av1 by (simp add: isRedisAvailable_rejections)
    next
      case answered: True
      have both: "\<forall>e \<in> set (take 2 (rejections r)). e = None"
        using True answered by (simp add: first_two_answered r1_def)
      have second: "safeRedisCommand (fetchAgentsData now (agentsOnline r)) None r1
          = (Some (filter (\<lambda>hash. hash \<noteq> [])
                     (map (\<lambda>agentId. hgetall now agentId r) (agentsOnline r))),
             r1\<lparr>rejections := tl (rejections r1)\<rparr>)"
        using av1 answered
        by (simp add: safeRedisCommand_available fetchAgentsData_answered)
           (simp add: r1_def hgetall_rejections)
      show ?thesis
        using first second nonempty both av1
        by (simp add: listFromCache_def isRedisAvailable_rejections)
    qed
  qed
qed

lemma removeOfflineAgents_db:
  "fst (removeOfflineAgents now db r)
     = (if fst (isRedisAvailable r) then db
        else filter (\<lambda>a. now - 60000 \<le> agent_lastHeartbeat a) db)"
proof -
  have "deleteOlderThan (now - 60000) db = filter (\<lambda>a. now - 60000 \<le> agent_lastHeartbeat a) db"
    by (simp add: deleteOlderThan_def not_less)
  then show ?thesis
    by (simp add: removeOfflineAgents_def HEARTBEAT_TIMEOUT_MS_def split: prod.splits)
qed

lemma listOnlineAgents_fallback:
  "fst (listFromCache now later r) = None \<Longrightarrow>
     fst (snd (listOnlineAgents now later db r))
       = fst (removeOfflineAgents later db (snd (listFromCache now later r)))
     \<and> fst (listOnlineAgents now later db r)
       = map (fromDurable now) (fst (snd (listOnlineAgents now later db r)))"
  by (cases "listFromCache now later r") (simp add: listOnlineAgents_def split: prod.splits)

lemma listOnlineAgents_cached:
  "fst (listFromCache now later r) = Some listed \<Longrightarrow>
     fst (listOnlineAgents now later db r) = listed
     \<and> fst (snd (listOnlineAgents now later db r)) = db"
  by (cases "listFromCache now later r") (simp add: listOnlineAgents_def)

lemma runCommands_remove:
  "agentsOnline (snd (runCommands now
       [Srem AGENTS_ONLINE agentId, Del (AGENT_HEARTBEAT agentId), Del (AGENT_DATA agentId)] r))
     = removeAll agentId (agentsOnline r)"
  "agentHeartbeat (snd (runCommands now
       [Srem AGENTS_ONLINE agentId, Del (AGENT_HEARTBEAT agentId), Del (AGENT_DATA agentId)] r))
     = AList.delete agentId (agentHeartbeat r)"
  "agentData (snd (runCommands now
       [Srem AGENTS_ONLINE agentId, Del (AGENT_HEARTBEAT agentId), Del (AGENT_DATA agentId)] r))
     = AList.delete agentId (agentData r)"
  by (simp_all add: liveHeartbeat_def liveData_def)

lemma removeAgent_invalid:
  "\<not> isValidAgentId agentId \<Longrightarrow> removeAgent now db agentId r = (False, db, r)"
  by (simp add: removeAgent_def)

lemma removeAgent_valid:
  "isValidAgentId agentId \<Longrightarrow>
     removeAgent now db agentId r
       = (True, db,
          snd (safeRedisCommand
                 (exec now [Srem AGENTS_ONLINE agentId, Del (AGENT_HEARTBEAT agentId),
                            Del (AGENT_DATA agentId)])
                 None r))"
  by (simp add: removeAgent_def split: prod.splits)

lemma removeAgent_cache_answered:
  assumes v: "isValidAgentId agentId" and av: "fst (isRedisAvailable r)"
    and an: "rejections r = [] \<or> hd (rejections r) = None"
  shows "agentsOnline (snd (snd (removeAgent now db agentId r))) = removeAll agentId (agentsOnline r)
     \<and> agentHeartbeat (snd (snd (removeAgent now db agentId r)))
         = AList.delete agentId (agentHeartbeat r)
     \<and> agentData (snd (snd (removeAgent now db agentId r))) = AList.delete agentId (agentData r)"
proof -
  have "snd (safeRedisCommand
                 (exec now [Srem AGENTS_ONLINE agentId, Del (AGENT_HEARTBEAT agentId),
                            Del (AGENT_DATA agentId)])
                 None r)
      = snd (runCommands now
                [Srem AGENTS_ONLINE agentId, Del (AGENT_HEARTBEAT agentId), Del (AGENT_DATA agentId)]
                (r\<lparr>rejections := tl (rejections r)\<rparr>))"
    using av an by (simp add: safeRedisCommand_available exec_def send_answered)
  then show ?thesis
    using v by (simp only: removeAgent_valid snd_conv runCommands_remove) simp
qed

lemma removeAgent_cache_untouched:
  assumes "\<not> isValidAgentId agentId \<or> \<not> fst (isRedisAvailable r)
      \<or> (\<exists>err rest. rejections r = Some err # rest)"
  shows "agentsOnline (snd (snd (removeAgent now db agentId r))) = agentsOnline r
     \<and> agentHeartbeat (snd (snd (removeAgent now db agentId r))) = agentHeartbeat r
     \<and> agentData (snd (snd (removeAgent now db agentId r))) = agentData r"
proof (cases "isValidAgentId agentId")
  case False
  then show ?thesis by (simp add: removeAgent_invalid)
next
  case v: True
  show ?thesis
  proof (cases "fst (isRedisAvailable r)")
    case False
    then show ?thesis
      using v getRedisClient_unavailable [OF False]
      by (simp add: removeAgent_valid safeRedisCommand_unavailable)
  next
    case True
    with assms v obtain err rest where "rejections r = Some err # rest"
      by blast
    then show ?thesis
      using v True by (simp add: removeAgent_valid safeRedisCommand_available exec_def send_rejected)
  qed
qed

lemma register_scenario:
  "registerAgent 0 [] ''agent-1'' None readyCache
     = Inr (\<lparr>result_agentId = ''agent-1'', result_agentName = ''Agent 1''\<rparr>,
            registeredDb, registeredCache)"
  by code_simp

lemma valid_agent_1: "isValidAgentId ''agent-1''"
  by code_simp

lemma invalid_agent_space: "\<not> isValidAgentId ''agent 1''"
  by code_simp

lemma valid_agent_2: "isValidAgentId ''agent-2''"
  by code_simp

lemma register_again_rejected:
  "registerAgent 5000 registeredDb ''agent-1'' None rejectingCache
     = Inr (\<lparr>result_agentId = ''agent-1'', result_agentName = ''Agent 1''\<rparr>,
            [\<lparr>agent_id = ''agent-1'', agent_name = ''Agent 1'', agent_status = ''idle'',
              agent_lastHeartbeat = 5000, agent_currentQueueId = None, agent_registeredAt = 0,
              agent_secret = None\<rparr>],
            registeredCache)"
  by code_simp

lemma registeredDb_ids: "map agent_id registeredDb = [''agent-1'']"
  by (simp add: registeredDb_def)

lemma registeredCache_available: "fst (isRedisAvailable registeredCache)"
  by code_simp

lemma reconnectingCache_unavailable: "\<not> fst (isRedisAvailable reconnectingCache)"
  by code_simp

lemma registeredCache_hashes:
  "filter (\<lambda>hash. hash \<noteq> []) (map (\<lambda>agentId. hgetall 1000 agentId registeredCache)
      (agentsOnline registeredCache))
    = [[(''id'', ''agent-1''), (''name'', ''Agent 1''), (''status'', ''idle''),
        (''registeredAt'', ''1970-01-01T00:00:00.000Z'')]]"
  by code_simp

lemma registeredCache_expired:
  "filter (\<lambda>hash. hash \<noteq> []) (map (\<lambda>agentId. hgetall 100000 agentId registeredCache)
      (agentsOnline registeredCache)) = []"
  by code_simp

text \<open>
  Claim C5. \<open>registerAgent\<close> fails exactly when the id is not a string of 1 to 100
  characters among the letters, the digits, the underscore and the dash, and then with
  the error "Invalid agentId format". Otherwise it returns, whatever state the cache is
  in (not ready, disabled, or rejecting the pipeline); afterwards the durable store has
  a row for the id, every row for the id has status idle, \<open>lastHeartbeat = now\<close>, no
  current assignment and the returned name, and the rows of other ids are as before.
\<close>

theorem registerAgent_upserts:
  "((\<exists>err. registerAgent now db agentId name r = Inl err) \<longleftrightarrow>
      \<not> (1 \<le> length agentId \<and> length agentId \<le> 100
         \<and> set agentId \<subseteq> set ''abcdefghijklmnopqrstuvwxyzABCDEFGHIJKLMNOPQRSTUVWXYZ0123456789_-''))
   \<and> (\<forall>err. registerAgent now db agentId name r = Inl err \<longrightarrow> err = Error ''Invalid agentId format'')
   \<and> (\<forall>result db' r'. registerAgent now db agentId name r = Inr (result, db', r') \<longrightarrow>
         result_agentId result = agentId
         \<and> (\<exists>a \<in> set db'. agent_id a = agentId)
         \<and> (\<forall>a \<in> set db'. agent_id a = agentId \<longrightarrow>
               agent_status a = ''idle'' \<and> agent_lastHeartbeat a = now
               \<and> agent_currentQueueId a = None \<and> agent_name a = result_agentName result)
         \<and> filter (\<lambda>a. agent_id a \<noteq> agentId) db' = filter (\<lambda>a. agent_id a \<noteq> agentId) db)"
  using registerAgent_cases [of now db agentId name r] unfolding isValidAgentId_iff .

theorem registerAgent_upserts_witness:
  "(\<exists>err. registerAgent 5000 registeredDb ''agent 1'' None rejectingCache = Inl err)
   \<and> \<not> (\<exists>err. registerAgent 5000 registeredDb ''agent-1'' None rejectingCache = Inl err)
   \<and> (\<exists>result db' r'.
         registerAgent 5000 registeredDb ''agent-1'' None rejectingCache = Inr (result, db', r')
         \<and> (\<forall>a \<in> set db'. agent_id a = ''agent-1'' \<longrightarrow>
               agent_status a = ''idle'' \<and> agent_lastHeartbeat a = 5000
               \<and> agent_currentQueueId a = None))"
proof -
  note bad = registerAgent_upserts [of 5000 registeredDb "''agent 1''" None rejectingCache,
      THEN conjunct1]
  note good = registerAgent_upserts [of 5000 registeredDb "''agent-1''" None rejectingCache]
  have "\<exists>err. registerAgent 5000 registeredDb ''agent 1'' None rejectingCache = Inl err"
    using bad by simp
  moreover have "\<not> (\<exists>err. registerAgent 5000 registeredDb ''agent-1'' None rejectingCache = Inl err)"
    using good [THEN conjunct1] by simp
  moreover have "\<exists>result db' r'.
         registerAgent 5000 registeredDb ''agent-1'' None rejectingCache = Inr (result, db', r')
         \<and> (\<forall>a \<in> set db'. agent_id a = ''agent-1'' \<longrightarrow>
               agent_status a = ''idle'' \<and> agent_lastHeartbeat a = 5000
               \<and> agent_currentQueueId a = None)"
    using good [THEN conjunct2, THEN conjunct2, rule_format, OF register_again_rejected]
      register_again_rejected
    by blast
  ultimately show ?thesis by blast
qed

text \<open>
  Claim C6. On a malformed id \<open>updateHeartbeat\<close> fails with "Invalid agentId format"
  and the route answers 400. On a well-formed id with no durable row it fails with
  "Agent not registered" and the route answers 404 with that message. Otherwise it
  returns, every row of the id has \<open>lastHeartbeat = now\<close>, no row is added or removed,
  and the route answers 200 with \<open>{ok: true}\<close>.
\<close>

theorem updateHeartbeat_outcomes:
  "(\<not> isValidAgentId agentId \<longrightarrow>
      updateHeartbeat now db agentId status currentQueueId r = Inl (Error ''Invalid agentId format'')
      \<and> (\<exists>body. heartbeatRoute now db (Some agentId) status currentQueueId r
            = (Reply 400 (ErrorBody body), db, r)))
   \<and> (isValidAgentId agentId \<and> agentId \<notin> set (map agent_id db) \<longrightarrow>
      updateHeartbeat now db agentId status currentQueueId r = Inl (Error ''Agent not registered'')
      \<and> heartbeatRoute now db (Some agentId) status currentQueueId r
            = (Reply 404 (ErrorBody ''Agent not registered''), db, r))
   \<and> (isValidAgentId agentId \<and> agentId \<in> set (map agent_id db) \<longrightarrow>
      (\<exists>db' r'. updateHeartbeat now db agentId status currentQueueId r = Inr (db', r')
         \<and> map agent_id db' = map agent_id db
         \<and> (\<forall>a \<in> set db'. agent_id a = agentId \<longrightarrow> agent_lastHeartbeat a = now)
         \<and> heartbeatRoute now db (Some agentId) status currentQueueId r
              = (Reply 200 OkTrue, db', r')))"
proof (intro conjI impI)
  assume inv: "\<not> isValidAgentId agentId"
  then show "updateHeartbeat now db agentId status currentQueueId r
      = Inl (Error ''Invalid agentId format'')"
    by (simp add: updateHeartbeat_def)
  then show "\<exists>body. heartbeatRoute now db (Some agentId) status currentQueueId r
            = (Reply 400 (ErrorBody body), db, r)"
    by (simp add: heartbeatRoute_def message_def)
next
  assume a: "isValidAgentId agentId \<and> agentId \<notin> set (map agent_id db)"
  then have "selectById agentId db = None"
    using selectById_None by blast
  with a show e: "updateHeartbeat now db agentId status currentQueueId r
      = Inl (Error ''Agent not registered'')"
    by (simp add: updateHeartbeat_def)
  from a have "agentId \<noteq> []"
    by (auto simp: isValidAgentId_def)
  with e show "heartbeatRoute now db (Some agentId) status currentQueueId r
            = (Reply 404 (ErrorBody ''Agent not registered''), db, r)"
    by (simp add: heartbeatRoute_def message_def)
next
  assume a: "isValidAgentId agentId \<and> agentId \<in> set (map agent_id db)"
  then obtain r1 where
    ok: "updateHeartbeat now db agentId status currentQueueId r
       = Inr (updateById now status currentQueueId agentId db, r1)"
    using updateHeartbeat_ok by blast
  from a have ne: "agentId \<noteq> []"
    by (auto simp: isValidAgentId_def)
  have "heartbeatRoute now db (Some agentId) status currentQueueId r
      = (Reply 200 OkTrue, updateById now status currentQueueId agentId db, r1)"
    using ok ne by (simp add: heartbeatRoute_def)
  moreover have "map agent_id (updateById now status currentQueueId agentId db) = map agent_id db"
    by (rule updateById_ids)
  moreover have "\<forall>a \<in> set (updateById now status currentQueueId agentId db).
      agent_id a = agentId \<longrightarrow> agent_lastHeartbeat a = now"
    using updateById_heartbeat by blast
  ultimately show "\<exists>db' r'. updateHeartbeat now db agentId status currentQueueId r = Inr (db', r')
         \<and> map agent_id db' = map agent_id db
         \<and> (\<forall>a \<in> set db'. agent_id a = agentId \<longrightarrow> agent_lastHeartbeat a = now)
         \<and> heartbeatRoute now db (Some agentId) status currentQueueId r
              = (Reply 200 OkTrue, db', r')"
    using ok by simp
qed

theorem updateHeartbeat_outcomes_witness:
  "(\<exists>body. heartbeatRoute 5000 registeredDb (Some ''agent 1'') None None registeredCache
      = (Reply 400 (ErrorBody body), registeredDb, registeredCache))
   \<and> heartbeatRoute 5000 registeredDb (Some ''agent-2'') None None registeredCache
      = (Reply 404 (ErrorBody ''Agent not registered''), registeredDb, registeredCache)
   \<and> (\<exists>db' r'. heartbeatRoute 5000 registeredDb (Some ''agent-1'') None None registeredCache
          = (Reply 200 OkTrue, db', r')
        \<and> (\<forall>a \<in> set db'. agent_id a = ''agent-1'' \<longrightarrow> agent_lastHeartbeat a = 5000))"
proof -
  have one: "\<exists>body. heartbeatRoute 5000 registeredDb (Some ''agent 1'') None None registeredCache
      = (Reply 400 (ErrorBody body), registeredDb, registeredCache)"
    using updateHeartbeat_outcomes [of "''agent 1''" 5000 registeredDb None None registeredCache]
      invalid_agent_space by blast
  have two: "heartbeatRoute 5000 registeredDb (Some ''agent-2'') None None registeredCache
      = (Reply 404 (ErrorBody ''Agent not registered''), registeredDb, registeredCache)"
    using updateHeartbeat_outcomes [of "''agent-2''" 5000 registeredDb None None registeredCache]
      valid_agent_2 by (simp add: registeredDb_ids)
  have three: "\<exists>db' r'. heartbeatRoute 5000 registeredDb (Some ''agent-1'') None None registeredCache
          = (Reply 200 OkTrue, db', r')
        \<and> (\<forall>a \<in> set db'. agent_id a = ''agent-1'' \<longrightarrow> agent_lastHeartbeat a = 5000)"
    using updateHeartbeat_outcomes [of "''agent-1''" 5000 registeredDb None None registeredCache,
        THEN conjunct2, THEN conjunct2] valid_agent_1
    by (simp add: registeredDb_ids) blast
  from one two three show ?thesis by blast
qed

text \<open>
  Claim C10. A successful \<open>updateHeartbeat\<close> keeps the number and order of the durable
  rows and the id, name, \<open>registeredAt\<close> and secret of every row; rows of other ids are
  unchanged; in a row of the given id \<open>lastHeartbeat\<close> becomes \<open>now\<close>, the status
  changes only to a status option that is given and not empty, and the assignment only
  to a \<open>currentQueueId\<close> option that is given.
\<close>

theorem updateHeartbeat_frame:
  "updateHeartbeat now db agentId status currentQueueId r = Inr (db', r') \<longrightarrow>
     length db' = length db
     \<and> (\<forall>i < length db.
          agent_id (db' ! i) = agent_id (db ! i)
          \<and> agent_name (db' ! i) = agent_name (db ! i)
          \<and> agent_registeredAt (db' ! i) = agent_registeredAt (db ! i)
          \<and> agent_secret (db' ! i) = agent_secret (db ! i)
          \<and> (agent_id (db ! i) \<noteq> agentId \<longrightarrow> db' ! i = db ! i)
          \<and> (agent_id (db ! i) = agentId \<longrightarrow>
                agent_lastHeartbeat (db' ! i) = now
                \<and> agent_status (db' ! i)
                    = (case status of
                         None \<Rightarrow> agent_status (db ! i)
                       | Some st \<Rightarrow> if st = [] then agent_status (db ! i) else st)
                \<and> agent_currentQueueId (db' ! i)
                    = (case currentQueueId of
                         None \<Rightarrow> agent_currentQueueId (db ! i)
                       | Some q \<Rightarrow> Some q)))"
proof
  assume "updateHeartbeat now db agentId status currentQueueId r = Inr (db', r')"
  then have "db' = updateById now status currentQueueId agentId db"
    using updateHeartbeat_Inr by blast
  then show "length db' = length db
     \<and> (\<forall>i < length db.
          agent_id (db' ! i) = agent_id (db ! i)
          \<and> agent_name (db' ! i) = agent_name (db ! i)
          \<and> agent_registeredAt (db' ! i) = agent_registeredAt (db ! i)
          \<and> agent_secret (db' ! i) = agent_secret (db ! i)
          \<and> (agent_id (db ! i) \<noteq> agentId \<longrightarrow> db' ! i = db ! i)
          \<and> (agent_id (db ! i) = agentId \<longrightarrow>
                agent_lastHeartbeat (db' ! i) = now
                \<and> agent_status (db' ! i)
                    = (case status of
                         None \<Rightarrow> agent_status (db ! i)
                       | Some st \<Rightarrow> if st = [] then agent_status (db ! i) else st)
                \<and> agent_currentQueueId (db' ! i)
                    = (case currentQueueId of
                         None \<Rightarrow> agent_currentQueueId (db ! i)
                       | Some q \<Rightarrow> Some q)))"
    by (simp add: updateById_def heartbeatSet_fields)
qed

theorem updateHeartbeat_frame_witness:
  "\<exists>db' r'. updateHeartbeat 5000 registeredDb ''agent-1'' None (Some ''q7'') registeredCache = Inr (db', r')
     \<and> agent_name (db' ! 0) = ''Agent 1'' \<and> agent_registeredAt (db' ! 0) = 0
     \<and> agent_status (db' ! 0) = ''idle'' \<and> agent_lastHeartbeat (db' ! 0) = 5000
     \<and> agent_currentQueueId (db' ! 0) = Some ''q7''"
proof -
  obtain r' where ok: "updateHeartbeat 5000 registeredDb ''agent-1'' None (Some ''q7'') registeredCache
      = Inr (updateById 5000 None (Some ''q7'') ''agent-1'' registeredDb, r')"
    using updateHeartbeat_ok [OF valid_agent_1, of registeredDb 5000 None "Some ''q7''" registeredCache]
    by (auto simp: registeredDb_ids)
  from updateHeartbeat_frame [of 5000 registeredDb "''agent-1''" None "Some ''q7''" registeredCache
      "updateById 5000 None (Some ''q7'') ''agent-1'' registeredDb" r', rule_format, OF ok]
  have "agent_name (updateById 5000 None (Some ''q7'') ''agent-1'' registeredDb ! 0) = ''Agent 1''
     \<and> agent_registeredAt (updateById 5000 None (Some ''q7'') ''agent-1'' registeredDb ! 0) = 0
     \<and> agent_status (updateById 5000 None (Some ''q7'') ''agent-1'' registeredDb ! 0) = ''idle''
     \<and> agent_lastHeartbeat (updateById 5000 None (Some ''q7'') ''agent-1'' registeredDb ! 0) = 5000
     \<and> agent_currentQueueId (updateById 5000 None (Some ''q7'') ''agent-1'' registeredDb ! 0) = Some ''q7''"
    by (simp add: registeredDb_def)
  with ok show ?thesis by blast
qed

text \<open>
  The first part of claim C2 fails as stated. After \<^verbatim>\<open>agent-1\<close> has registered at
  time 0, at time 100000 the cache is available, answers every call, and its online set
  has the member \<^verbatim>\<open>agent-1\<close>; its data hash has expired, though (70 s), so the list
  comes from the durable store and marks the agent offline; nothing is swept.
\<close>

theorem listOnlineAgents_counterexample:
  "fst (isRedisAvailable registeredCache) \<and> rejections registeredCache = []
   \<and> agentsOnline registeredCache = [''agent-1'']
   \<and> map offline (fst (listOnlineAgents 100000 100000 registeredDb registeredCache)) = [True]
   \<and> fst (snd (listOnlineAgents 100000 100000 registeredDb registeredCache)) = registeredDb"
  by code_simp

text \<open>
  Claim C2, amended. \<open>listOnlineAgents\<close> returns the cached agents, all with
  \<open>offline = False\<close>, exactly when the cache is available, its first two calls are
  answered, and at least one member of the online set has a data hash that is present
  and not empty; the list then has one element per such hash. In every other case
  (cache unavailable, a call rejected, online set empty, or no member with a live data
  hash) it returns the rows of the durable store, each marked offline exactly when
  \<open>now - lastHeartbeat > 60000\<close>. Rows with \<open>lastHeartbeat < later - 60000\<close> are deleted
  from the durable store exactly when the cache is unavailable, and never otherwise.
\<close>

theorem listOnlineAgents_paths:
  "fst (snd (listOnlineAgents now later db r))
      = (if fst (isRedisAvailable r) then db
         else filter (\<lambda>a. later - 60000 \<le> agent_lastHeartbeat a) db)
   \<and> (fst (isRedisAvailable r) \<and> (\<forall>e \<in> set (take 2 (rejections r)). e = None)
        \<and> filter (\<lambda>hash. hash \<noteq> []) (map (\<lambda>agentId. hgetall now agentId r) (agentsOnline r)) \<noteq> []
      \<longrightarrow> fst (listOnlineAgents now later db r)
           = map (fromCache later)
               (filter (\<lambda>hash. hash \<noteq> []) (map (\<lambda>agentId. hgetall now agentId r) (agentsOnline r))))
   \<and> (\<not> fst (isRedisAvailable r) \<or> (\<exists>e \<in> set (take 2 (rejections r)). e \<noteq> None)
        \<or> filter (\<lambda>hash. hash \<noteq> []) (map (\<lambda>agentId. hgetall now agentId r) (agentsOnline r)) = []
      \<longrightarrow> fst (listOnlineAgents now later db r)
           = map (fromDurable now) (fst (snd (listOnlineAgents now later db r))))
   \<and> (\<forall>hash. \<not> offline (fromCache later hash))
   \<and> (\<forall>a. offline (fromDurable now a) \<longleftrightarrow> now - agent_lastHeartbeat a > 60000)"
proof (cases "fst (isRedisAvailable r)")
  case False
  then have "fst (listFromCache now later r) = None"
    and "\<not> fst (isRedisAvailable (snd (listFromCache now later r)))"
    using listFromCache_unavailable by blast+
  then show ?thesis
    using False listOnlineAgents_fallback [of now later r db]
    by (simp add: removeOfflineAgents_db fromCache_def fromDurable_def HEARTBEAT_TIMEOUT_MS_def)
next
  case True
  note lc = listFromCache_available [OF True, of now later]
  show ?thesis
  proof (cases "(\<forall>e \<in> set (take 2 (rejections r)). e = None)
             \<and> filter (\<lambda>hash. hash \<noteq> []) (map (\<lambda>agentId. hgetall now agentId r) (agentsOnline r)) \<noteq> []")
    case cached: True
    then have "fst (listFromCache now later r)
        = Some (map (fromCache later)
                 (filter (\<lambda>hash. hash \<noteq> []) (map (\<lambda>agentId. hgetall now agentId r) (agentsOnline r))))"
      using lc by simp
    from listOnlineAgents_cached [OF this, of db] show ?thesis
      using True cached
      by (simp add: fromCache_def fromDurable_def HEARTBEAT_TIMEOUT_MS_def)
  next
    case fallback: False
    then have "fst (listFromCache now later r) = None"
      using lc by auto
    from listOnlineAgents_fallback [OF this, of db] show ?thesis
      using True fallback lc
      by (auto simp: removeOfflineAgents_db fromCache_def fromDurable_def HEARTBEAT_TIMEOUT_MS_def)
  qed
qed

theorem listOnlineAgents_paths_witness:
  "fst (listOnlineAgents 1000 1001 registeredDb registeredCache)
     = [\<lparr>listed_id = Some ''agent-1'', listed_name = Some ''Agent 1'',
         listed_status = Some ''idle'', listed_lastHeartbeat = 1001, listed_registeredAt = 1001,
         listed_currentQueueId = None, listed_secret = None, offline = False\<rparr>]
   \<and> listOnlineAgents 100000 100001 registeredDb reconnectingCache
       = ([], [], snd (snd (listOnlineAgents 100000 100001 registeredDb reconnectingCache)))
   \<and> fst (listOnlineAgents 100000 100001 registeredDb registeredCache)
       = [\<lparr>listed_id = Some ''agent-1'', listed_name = Some ''Agent 1'',
           listed_status = Some ''idle'', listed_lastHeartbeat = 0, listed_registeredAt = 0,
           listed_currentQueueId = None, listed_secret = None, offline = True\<rparr>]"
proof -
  have none: "\<forall>e \<in> set (take 2 (rejections registeredCache)). e = None"
    by (simp add: registeredCache_def)
  have one: "fst (listOnlineAgents 1000 1001 registeredDb registeredCache)
     = [\<lparr>listed_id = Some ''agent-1'', listed_name = Some ''Agent 1'',
         listed_status = Some ''idle'', listed_lastHeartbeat = 1001, listed_registeredAt = 1001,
         listed_currentQueueId = None, listed_secret = None, offline = False\<rparr>]"
    using listOnlineAgents_paths [of 1000 1001 registeredDb registeredCache,
        THEN conjunct2, THEN conjunct1] registeredCache_available none
    by (simp add: registeredCache_hashes fromCache_def)
  note down = listOnlineAgents_paths [of 100000 100001 registeredDb reconnectingCache]
  have swept: "fst (snd (listOnlineAgents 100000 100001 registeredDb reconnectingCache)) = []"
    using down [THEN conjunct1] reconnectingCache_unavailable
    by (simp add: registeredDb_def)
  have "fst (listOnlineAgents 100000 100001 registeredDb reconnectingCache) = []"
    using down [THEN conjunct2, THEN conjunct2, THEN conjunct1] reconnectingCache_unavailable swept
    by simp
  with swept have two: "listOnlineAgents 100000 100001 registeredDb reconnectingCache
       = ([], [], snd (snd (listOnlineAgents 100000 100001 registeredDb reconnectingCache)))"
    by (metis prod.collapse)
  note stale = listOnlineAgents_paths [of 100000 100001 registeredDb registeredCache]
  have kept: "fst (snd (listOnlineAgents 100000 100001 registeredDb registeredCache)) = registeredDb"
    using stale [THEN conjunct1] registeredCache_available by simp
  have three: "fst (listOnlineAgents 100000 100001 registeredDb registeredCache)
       = [\<lparr>listed_id = Some ''agent-1'', listed_name = Some ''Agent 1'',
           listed_status = Some ''idle'', listed_lastHeartbeat = 0, listed_registeredAt = 0,
           listed_currentQueueId = None, listed_secret = None, offline = True\<rparr>]"
    using stale [THEN conjunct2, THEN conjunct2, THEN conjunct1] registeredCache_expired kept
    by (simp add: registeredDb_def fromDurable_def HEARTBEAT_TIMEOUT_MS_def)
  from one two three show ?thesis by blast
qed

text \<open>
  Claim C7 fails as stated: while the client is reconnecting, \<open>removeAgent\<close> on the
  well-formed id \<^verbatim>\<open>agent-1\<close> returns true and the id is still in the online set.
\<close>

theorem removeAgent_counterexample:
  "isValidAgentId ''agent-1''
   \<and> fst (removeAgent 5000 registeredDb ''agent-1'' reconnectingCache) = True
   \<and> ''agent-1'' \<in> set (agentsOnline (snd (snd (removeAgent 5000 registeredDb ''agent-1'' reconnectingCache))))"
  by code_simp

text \<open>
  Claim C7, amended. \<open>removeAgent\<close> returns false exactly when the id is malformed, and
  it never changes the durable store. For a well-formed id, when the cache is available
  and answers the pipeline, afterwards the id is not in the online set (whose other
  members stay) and has no heartbeat and no data entry; when the id is malformed, the
  cache is unavailable or the pipeline is rejected, the contents of the cache are as
  before. The delete route answers 404 when \<open>removeAgent\<close> returns false and
  \<open>{ok: true}\<close> when it returns true.
\<close>

theorem removeAgent_effect:
  "(fst (removeAgent now db agentId r) = False \<longleftrightarrow> \<not> isValidAgentId agentId)
   \<and> fst (snd (removeAgent now db agentId r)) = db
   \<and> (isValidAgentId agentId \<and> fst (isRedisAvailable r)
        \<and> (rejections r = [] \<or> hd (rejections r) = None) \<longrightarrow>
          agentId \<notin> set (agentsOnline (snd (snd (removeAgent now db agentId r))))
          \<and> set (agentsOnline (snd (snd (removeAgent now db agentId r))))
              = set (agentsOnline r) - {agentId}
          \<and> map_of (agentHeartbeat (snd (snd (removeAgent now db agentId r)))) agentId = None
          \<and> map_of (agentData (snd (snd (removeAgent now db agentId r)))) agentId = None)
   \<and> (\<not> isValidAgentId agentId \<or> \<not> fst (isRedisAvailable r)
        \<or> (\<exists>err rest. rejections r = Some err # rest) \<longrightarrow>
          agentsOnline (snd (snd (removeAgent now db agentId r))) = agentsOnline r
          \<and> agentHeartbeat (snd (snd (removeAgent now db agentId r))) = agentHeartbeat r
          \<and> agentData (snd (snd (removeAgent now db agentId r))) = agentData r)
   \<and> fst (deleteRoute now db agentId r)
        = (if fst (removeAgent now db agentId r) then Reply 200 OkTrue
           else Reply 404 (ErrorBody ''Agent not found''))"
proof (intro conjI impI)
  show "(fst (removeAgent now db agentId r) = False) = (\<not> isValidAgentId agentId)"
    by (cases "isValidAgentId agentId") (simp_all add: removeAgent_invalid removeAgent_valid)
  show "fst (snd (removeAgent now db agentId r)) = db"
    by (cases "isValidAgentId agentId") (simp_all add: removeAgent_invalid removeAgent_valid)
  show "fst (deleteRoute now db agentId r)
        = (if fst (removeAgent now db agentId r) then Reply 200 OkTrue
           else Reply 404 (ErrorBody ''Agent not found''))"
    by (simp add: deleteRoute_def split: prod.splits)
next
  assume a: "isValidAgentId agentId \<and> fst (isRedisAvailable r)
        \<and> (rejections r = [] \<or> hd (rejections r) = None)"
  then have c: "agentsOnline (snd (snd (removeAgent now db agentId r))) = removeAll agentId (agentsOnline r)
     \<and> agentHeartbeat (snd (snd (removeAgent now db agentId r)))
         = AList.delete agentId (agentHeartbeat r)
     \<and> agentData (snd (snd (removeAgent now db agentId r))) = AList.delete agentId (agentData r)"
    using removeAgent_cache_answered by blast
  from c show "agentId \<notin> set (agentsOnline (snd (snd (removeAgent now db agentId r))))"
    by simp
  from c show "set (agentsOnline (snd (snd (removeAgent now db agentId r))))
              = set (agentsOnline r) - {agentId}"
    by simp
  from c show "map_of (agentHeartbeat (snd (snd (removeAgent now db agentId r)))) agentId = None"
    by (simp add: AList.delete_conv')
  from c show "map_of (agentData (snd (snd (removeAgent now db agentId r)))) agentId = None"
    by (simp add: AList.delete_conv')
next
  assume a: "\<not> isValidAgentId agentId \<or> \<not> fst (isRedisAvailable r)
        \<or> (\<exists>err rest. rejections r = Some err # rest)"
  from removeAgent_cache_untouched [OF a]
  show "agentsOnline (snd (snd (removeAgent now db agentId r))) = agentsOnline r"
    and "agentHeartbeat (snd (snd (removeAgent now db agentId r))) = agentHeartbeat r"
    and "agentData (snd (snd (removeAgent now db agentId r))) = agentData r"
    by simp_all
qed

theorem removeAgent_effect_witness:
  "fst (removeAgent 5000 registeredDb ''agent-1'' registeredCache) = True
   \<and> ''agent-1'' \<notin> set (agentsOnline (snd (snd (removeAgent 5000 registeredDb ''agent-1'' registeredCache))))
   \<and> fst (snd (removeAgent 5000 registeredDb ''agent-1'' registeredCache)) = registeredDb
   \<and> agentsOnline (snd (snd (removeAgent 5000 registeredDb ''agent-1'' reconnectingCache)))
       = [''agent-1'']
   \<and> fst (deleteRoute 5000 registeredDb ''agent 1'' registeredCache)
       = Reply 404 (ErrorBody ''Agent not found'')"
proof -
  note up = removeAgent_effect [of 5000 registeredDb "''agent-1''" registeredCache]
  note down = removeAgent_effect [of 5000 registeredDb "''agent-1''" reconnectingCache]
  note bad = removeAgent_effect [of 5000 registeredDb "''agent 1''" registeredCache]
  have a: "fst (removeAgent 5000 registeredDb ''agent-1'' registeredCache) = True"
    using up [THEN conjunct1] valid_agent_1 by simp
  have b: "''agent-1'' \<notin> set (agentsOnline (snd (snd (removeAgent 5000 registeredDb ''agent-1'' registeredCache))))"
    using up [THEN conjunct2, THEN conjunct2, THEN conjunct1] valid_agent_1 registeredCache_available
    by (simp add: registeredCache_def)
  have c: "fst (snd (removeAgent 5000 registeredDb ''agent-1'' registeredCache)) = registeredDb"
    using up [THEN conjunct2, THEN conjunct1] .
  have d: "agentsOnline (snd (snd (removeAgent 5000 registeredDb ''agent-1'' reconnectingCache)))
       = [''agent-1'']"
    using down [THEN conjunct2, THEN conjunct2, THEN conjunct2, THEN conjunct1]
      reconnectingCache_unavailable
    by (simp add: reconnectingCache_def registeredCache_def)
  have e: "fst (deleteRoute 5000 registeredDb ''agent 1'' registeredCache)
       = Reply 404 (ErrorBody ''Agent not found'')"
    using bad [THEN conjunct1] bad [THEN conjunct2, THEN conjunct2, THEN conjunct2, THEN conjunct2]
      invalid_agent_space
    by simp
  from a b c d e show ?thesis by blast
qed

end
